theory Spec2Isabelle
  imports Complex_Main
begin

section \<open>Conventions of the embedding\<close>

text \<open>
  The simulator computes with Python floats. They are modelled as real numbers with exact
  arithmetic: \<open>+\<close>, \<open>-\<close>, \<open>*\<close> and \<open>min\<close> are those of \<open>real\<close>, and
  \<open>math.sqrt\<close> is \<open>sqrt\<close>. The battery is given a second time with the rounding of
  every operation to a double written out, for the properties that rounding decides: the
  bounds on the stored energy and the energy delivered by a round trip. What Python does beyond computing a number is written
  out: a float division by zero raises \<open>ZeroDivisionError\<close>, \<open>math.sqrt\<close> of a negative
  number raises \<open>ValueError\<close>, and \<open>round(x, 6)\<close> rounds half to even on the sixth decimal.
  Objects mutated in place (the battery and the grid) are passed in and returned updated.
  Python's unbounded integers are \<open>int\<close>; \<open>//\<close> and \<open>%\<close> are \<open>div\<close> and \<open>mod\<close>, which
  round the same way, and raise \<open>ZeroDivisionError\<close> on a zero divisor.
\<close>

datatype error = ZeroDivisionError | ValueError string | KeyError string | IndexError

section \<open>Battery (Simulator/src/Battery.py)\<close>

record Battery =
  capacity_kwh :: real
  efficiency :: real
  min_soc :: real
  energy_kwh :: real
  min_energy_kwh :: real
  one_way_efficiency :: real

text \<open>\<open>Battery.__init__\<close>: the battery starts at 50 percent state of charge.\<close>

definition Battery_init :: "real \<Rightarrow> real \<Rightarrow> real \<Rightarrow> error + Battery" where
  "Battery_init capacity eff msoc =
     (if eff < 0 then Inl (ValueError ''math domain error'')
      else Inr \<lparr>capacity_kwh = capacity, efficiency = eff, min_soc = msoc,
                energy_kwh = capacity * 0.5, min_energy_kwh = capacity * msoc,
                one_way_efficiency = sqrt eff\<rparr>)"

text \<open>\<open>Battery.get_soc\<close>.\<close>

definition get_soc :: "Battery \<Rightarrow> error + real" where
  "get_soc b =
     (if capacity_kwh b = 0 then Inl ZeroDivisionError
      else Inr ((energy_kwh b / capacity_kwh b) * 100))"

text \<open>
  \<open>Battery.charge\<close>: returns the energy consumed from the source and the updated battery.
  The division of step 4 comes before the update of step 5, so a call that raises leaves
  the battery as it was.
\<close>

definition charge :: "Battery \<Rightarrow> real \<Rightarrow> error + (real \<times> Battery)" where
  "charge b e =
     (let usable_energy = e * one_way_efficiency b;
          space_available = capacity_kwh b - energy_kwh b;
          energy_to_store = min usable_energy space_available
      in if one_way_efficiency b = 0 then Inl ZeroDivisionError
         else (let energy_consumed_from_source = energy_to_store / one_way_efficiency b
               in Inr (energy_consumed_from_source,
                       b\<lparr>energy_kwh := energy_kwh b + energy_to_store\<rparr>)))"

text \<open>
  \<open>Battery.discharge\<close>: returns the energy supplied and the updated battery. The division
  is the first statement, so a call that raises leaves the battery as it was.
\<close>

definition discharge :: "Battery \<Rightarrow> real \<Rightarrow> error + (real \<times> Battery)" where
  "discharge b e =
     (if one_way_efficiency b = 0 then Inl ZeroDivisionError
      else (let required_energy = e / one_way_efficiency b;
                max_available = energy_kwh b - min_energy_kwh b;
                actual_extracted = min required_energy max_available;
                supplied = actual_extracted * one_way_efficiency b
            in Inr (supplied, b\<lparr>energy_kwh := energy_kwh b - actual_extracted\<rparr>)))"

section \<open>The battery in double precision\<close>

text \<open>
  A Python float is an IEEE 754 binary64 number: every arithmetic operation, and
  \<open>math.sqrt\<close>, returns the exact result rounded to the nearest double, a tie going to the
  double with the even significand. \<open>rne\<close> rounds a real to the nearest integer, ties to
  even. \<open>exponent\<close> is the binary exponent of a number, never below \<open>-1022\<close>, the exponent
  of the subnormal doubles. \<open>fl64\<close> rounds a real to the nearest multiple of the unit in
  the last place at that exponent, which leaves a significand of 53 bits. Overflow to
  infinity is not modelled, so \<open>fl64\<close> is the rounding of binary64 for results below
  \<open>2 ^ 1023\<close> in magnitude; the theorems about this model bound their inputs so that every
  intermediate result is.
\<close>

definition rne :: "real \<Rightarrow> int" where
  "rne y =
     (let f = \<lfloor>y\<rfloor>; d = y - of_int f
      in if d < 1 / 2 then f else if 1 / 2 < d then f + 1 else if even f then f else f + 1)"

definition exponent :: "real \<Rightarrow> int" where
  "exponent x = max \<lfloor>log 2 \<bar>x\<bar>\<rfloor> (- 1022)"

definition fl64 :: "real \<Rightarrow> real" where
  "fl64 x =
     (if x = 0 then 0
      else (let ulp = power_int 2 (exponent x - 52)
            in of_int (rne (x / ulp)) * ulp))"

text \<open>
  \<open>Battery.__init__\<close>, \<open>Battery.charge\<close> and \<open>Battery.discharge\<close> once more, statement
  by statement, with the rounding of each operation written out. The arguments are stored
  or used as they are given: they stand for doubles. \<open>min\<close> selects one of its arguments
  and rounds nothing.
\<close>

definition Battery_init_double :: "real \<Rightarrow> real \<Rightarrow> real \<Rightarrow> error + Battery" where
  "Battery_init_double capacity eff msoc =
     (if eff < 0 then Inl (ValueError ''math domain error'')
      else Inr \<lparr>capacity_kwh = capacity, efficiency = eff, min_soc = msoc,
                energy_kwh = fl64 (capacity * 0.5), min_energy_kwh = fl64 (capacity * msoc),
                one_way_efficiency = fl64 (sqrt eff)\<rparr>)"

definition charge_double :: "Battery \<Rightarrow> real \<Rightarrow> error + (real \<times> Battery)" where
  "charge_double b e =
     (let usable_energy = fl64 (e * one_way_efficiency b);
          space_available = fl64 (capacity_kwh b - energy_kwh b);
          energy_to_store = min usable_energy space_available
      in if one_way_efficiency b = 0 then Inl ZeroDivisionError
         else (let energy_consumed_from_source = fl64 (energy_to_store / one_way_efficiency b)
               in Inr (energy_consumed_from_source,
                       b\<lparr>energy_kwh := fl64 (energy_kwh b + energy_to_store)\<rparr>)))"

definition discharge_double :: "Battery \<Rightarrow> real \<Rightarrow> error + (real \<times> Battery)" where
  "discharge_double b e =
     (if one_way_efficiency b = 0 then Inl ZeroDivisionError
      else (let required_energy = fl64 (e / one_way_efficiency b);
                max_available = fl64 (energy_kwh b - min_energy_kwh b);
                actual_extracted = min required_energy max_available;
                supplied = fl64 (actual_extracted * one_way_efficiency b)
            in Inr (supplied, b\<lparr>energy_kwh := fl64 (energy_kwh b - actual_extracted)\<rparr>)))"

text \<open>A finite sequence of calls on one battery; the first call that raises ends it.\<close>

datatype battery_call = Charge real | Discharge real

fun call_arg :: "battery_call \<Rightarrow> real" where
  "call_arg (Charge e) = e"
| "call_arg (Discharge e) = e"

fun do_call_double :: "Battery \<Rightarrow> battery_call \<Rightarrow> error + (real \<times> Battery)" where
  "do_call_double b (Charge e) = charge_double b e"
| "do_call_double b (Discharge e) = discharge_double b e"

fun do_calls_double :: "Battery \<Rightarrow> battery_call list \<Rightarrow> error + Battery" where
  "do_calls_double b [] = Inr b"
| "do_calls_double b (c # cs) =
     (case do_call_double b c of
        Inl err \<Rightarrow> Inl err
      | Inr (r, b') \<Rightarrow> do_calls_double b' cs)"

text \<open>
  The distance by which rounding can carry the stored energy of a battery of the given
  capacity past one of its bounds: three times the sum of half a unit in the last place
  of the capacity, at most, and half the spacing of the subnormal doubles.
\<close>

definition double_tolerance :: "real \<Rightarrow> real" where
  "double_tolerance capacity = 3 * (capacity / 2 ^ 53 + 1 / 2 ^ 1075)"

text \<open>
  What every call preserves: the one-way efficiency is positive, the floor lies between
  zero and the capacity, and the stored energy is a double within the tolerance of the
  two bounds.
\<close>

definition double_invariant :: "Battery \<Rightarrow> bool" where
  "double_invariant b \<longleftrightarrow>
     0 < one_way_efficiency b \<and> 0 \<le> min_energy_kwh b \<and>
     min_energy_kwh b \<le> capacity_kwh b \<and> fl64 (energy_kwh b) = energy_kwh b \<and>
     min_energy_kwh b - double_tolerance (capacity_kwh b) \<le> energy_kwh b \<and>
     energy_kwh b \<le> capacity_kwh b + double_tolerance (capacity_kwh b)"

section \<open>Grid (Simulator/src/Grid.py)\<close>

record Grid =
  import_cost_per_kwh :: real
  export_revenue_per_kwh :: real
  export_limit_kw :: real
  total_energy_imported_kwh :: real
  total_energy_exported_kwh :: real
  total_import_cost :: real
  total_export_revenue :: real

definition Grid_init :: "real \<Rightarrow> real \<Rightarrow> real \<Rightarrow> Grid" where
  "Grid_init import_cost export_revenue export_limit =
     \<lparr>import_cost_per_kwh = import_cost, export_revenue_per_kwh = export_revenue,
      export_limit_kw = export_limit, total_energy_imported_kwh = 0,
      total_energy_exported_kwh = 0, total_import_cost = 0, total_export_revenue = 0\<rparr>"

text \<open>\<open>Grid.import_energy\<close>: returns the cost of the import and the updated grid.\<close>

definition import_energy :: "Grid \<Rightarrow> real \<Rightarrow> real \<Rightarrow> real \<times> Grid" where
  "import_energy g power_kw time_step_hours =
     (let energy = power_kw * time_step_hours;
          cost = energy * import_cost_per_kwh g
      in (cost, g\<lparr>total_energy_imported_kwh := total_energy_imported_kwh g + energy,
                   total_import_cost := total_import_cost g + cost\<rparr>))"

text \<open>\<open>Grid.export_energy\<close>: returns the power actually exported and the updated grid.\<close>

definition export_energy :: "Grid \<Rightarrow> real \<Rightarrow> real \<Rightarrow> real \<times> Grid" where
  "export_energy g power_kw time_step_hours =
     (let actual_power_kw = min power_kw (export_limit_kw g);
          energy = actual_power_kw * time_step_hours;
          revenue = energy * export_revenue_per_kwh g
      in (actual_power_kw,
          g\<lparr>total_energy_exported_kwh := total_energy_exported_kwh g + energy,
            total_export_revenue := total_export_revenue g + revenue\<rparr>))"

section \<open>Energy management system (Simulator/src/EnergyManagementSystem.py)\<close>

text \<open>Python's \<open>round(x, ndigits)\<close> on a float: to the nearest, ties to the even digit.\<close>

definition py_round :: "real \<Rightarrow> nat \<Rightarrow> real" where
  "py_round x ndigits =
     (let y = x * 10 ^ ndigits; f = \<lfloor>y\<rfloor>; d = y - of_int f
      in of_int (if d < 1 / 2 then f
                 else if 1 / 2 < d then f + 1
                 else if even f then f else f + 1) / 10 ^ ndigits)"

record flows =
  solar_to_load :: real
  solar_to_battery :: real
  solar_to_grid :: real
  battery_to_load :: real
  grid_to_load :: real
  unmet_load :: real
  curtailed :: real

text \<open>
  The last two statements of each strategy: \<open>unmet_load = grid_to_load\<close>, and the
  returned dictionary with every field rounded to six decimals.
\<close>

definition make_flows :: "real \<Rightarrow> real \<Rightarrow> real \<Rightarrow> real \<Rightarrow> real \<Rightarrow> real \<Rightarrow> flows" where
  "make_flows s2l s2b s2g b2l g2l curt =
     (let unmet = g2l
      in \<lparr>solar_to_load = py_round s2l 6, solar_to_battery = py_round s2b 6,
          solar_to_grid = py_round s2g 6, battery_to_load = py_round b2l 6,
          grid_to_load = py_round g2l 6, unmet_load = py_round unmet 6,
          curtailed = py_round curt 6\<rparr>)"

text \<open>
  A strategy returns the flow breakdown or the exception it raised, together with the
  battery and the grid as the call left them (a call that raises half-way keeps the
  mutations made before the raise).
\<close>

type_synonym ems_result = "(error + flows) \<times> Battery \<times> Grid"

text \<open>\<open>EnergyManagementSystem._load_priority\<close>.\<close>

definition load_priority :: "real \<Rightarrow> real \<Rightarrow> Battery \<Rightarrow> Grid \<Rightarrow> real \<Rightarrow> ems_result" where
  "load_priority solar_kw load_kw battery grid time_step_hours =
     (if solar_kw \<ge> load_kw then
        (let solar_to_load_kw = load_kw;
             excess = solar_kw - load_kw
         in case (if excess > 0 then
                    (let offered_energy = excess * time_step_hours
                     in case charge battery offered_energy of
                          Inl err \<Rightarrow> (Inl err, battery)
                        | Inr (charged_energy, battery') \<Rightarrow>
                            if time_step_hours = 0 then (Inl ZeroDivisionError, battery')
                            else (let solar_to_battery_kw = charged_energy / time_step_hours;
                                      rejected_energy = offered_energy - charged_energy;
                                      remaining_power = rejected_energy / time_step_hours
                                  in (Inr (solar_to_battery_kw, remaining_power), battery')))
                  else (Inr (0, excess), battery)) of
              (Inl err, battery') \<Rightarrow> (Inl err, battery', grid)
            | (Inr (solar_to_battery_kw, excess'), battery') \<Rightarrow>
                (let (solar_to_grid_kw, curtailed_kw, grid') =
                       (if excess' > 0 then
                          (let (exported, grid') = export_energy grid excess' time_step_hours
                           in (exported,
                               (if exported < excess' then excess' - exported else 0),
                               grid'))
                        else (0, 0, grid))
                 in (Inr (make_flows solar_to_load_kw solar_to_battery_kw solar_to_grid_kw 0 0 curtailed_kw),
                     battery', grid')))
      else
        (let solar_to_load_kw = solar_kw;
             deficit = load_kw - solar_kw
         in case (if deficit > 0 then
                    (let requested_energy = deficit * time_step_hours
                     in case discharge battery requested_energy of
                          Inl err \<Rightarrow> (Inl err, battery)
                        | Inr (discharged_energy, battery') \<Rightarrow>
                            if time_step_hours = 0 then (Inl ZeroDivisionError, battery')
                            else (let discharged_power = discharged_energy / time_step_hours
                                  in (Inr (discharged_power, deficit - discharged_power),
                                      battery')))
                  else (Inr (0, deficit), battery)) of
              (Inl err, battery') \<Rightarrow> (Inl err, battery', grid)
            | (Inr (battery_to_load_kw, deficit'), battery') \<Rightarrow>
                (let (grid_to_load_kw, grid') =
                       (if deficit' > 0
                        then (deficit', snd (import_energy grid deficit' time_step_hours))
                        else (0, grid))
                 in (Inr (make_flows solar_to_load_kw 0 0 battery_to_load_kw grid_to_load_kw 0),
                     battery', grid'))))"

text \<open>\<open>EnergyManagementSystem._charge_priority\<close>.\<close>

definition charge_priority :: "real \<Rightarrow> real \<Rightarrow> Battery \<Rightarrow> Grid \<Rightarrow> real \<Rightarrow> ems_result" where
  "charge_priority solar_kw load_kw battery grid time_step_hours =
     (if solar_kw \<ge> load_kw then
        (let offered_energy = solar_kw * time_step_hours
         in case charge battery offered_energy of
              Inl err \<Rightarrow> (Inl err, battery, grid)
            | Inr (charged_energy, battery') \<Rightarrow>
                if time_step_hours = 0 then (Inl ZeroDivisionError, battery', grid)
                else (let solar_to_battery_kw = charged_energy / time_step_hours;
                          rejected_energy = offered_energy - charged_energy;
                          solar_remaining = rejected_energy / time_step_hours
                      in if solar_remaining \<ge> load_kw then
                           (let solar_to_load_kw = load_kw;
                                excess = solar_remaining - load_kw;
                                (solar_to_grid_kw, curtailed_kw, grid') =
                                  (if excess > 0 then
                                     (let (exported, grid') =
                                            export_energy grid excess time_step_hours
                                      in (exported,
                                          (if exported < excess then excess - exported else 0),
                                          grid'))
                                   else (0, 0, grid))
                            in (Inr (make_flows solar_to_load_kw solar_to_battery_kw solar_to_grid_kw
                                       0 0 curtailed_kw),
                                battery', grid'))
                         else
                           (let solar_to_load_kw = solar_remaining;
                                deficit = load_kw - solar_remaining;
                                grid' = snd (import_energy grid deficit time_step_hours);
                                grid_to_load_kw = deficit
                            in (Inr (make_flows solar_to_load_kw solar_to_battery_kw 0 0
                                       grid_to_load_kw 0),
                                battery', grid'))))
      else
        (let solar_to_load_kw = solar_kw;
             deficit = load_kw - solar_kw
         in case (if deficit > 0 then
                    (let requested_energy = deficit * time_step_hours
                     in case discharge battery requested_energy of
                          Inl err \<Rightarrow> (Inl err, battery)
                        | Inr (discharged_energy, battery') \<Rightarrow>
                            if time_step_hours = 0 then (Inl ZeroDivisionError, battery')
                            else (let discharged_power = discharged_energy / time_step_hours
                                  in (Inr (discharged_power, deficit - discharged_power),
                                      battery')))
                  else (Inr (0, deficit), battery)) of
              (Inl err, battery') \<Rightarrow> (Inl err, battery', grid)
            | (Inr (battery_to_load_kw, deficit'), battery') \<Rightarrow>
                (let (grid_to_load_kw, grid') =
                       (if deficit' > 0
                        then (deficit', snd (import_energy grid deficit' time_step_hours))
                        else (0, grid))
                 in (Inr (make_flows solar_to_load_kw 0 0 battery_to_load_kw grid_to_load_kw 0),
                     battery', grid'))))"

text \<open>\<open>EnergyManagementSystem._produce_priority\<close>.\<close>

definition produce_priority :: "real \<Rightarrow> real \<Rightarrow> Battery \<Rightarrow> Grid \<Rightarrow> real \<Rightarrow> ems_result" where
  "produce_priority solar_kw load_kw battery grid time_step_hours =
     (let (exported, grid1) = export_energy grid solar_kw time_step_hours;
          solar_to_grid_kw = exported;
          solar_remaining = solar_kw - exported
      in case (if solar_remaining > 0 then
                 (let offered_energy = solar_remaining * time_step_hours
                  in case charge battery offered_energy of
                       Inl err \<Rightarrow> (Inl err, battery)
                     | Inr (charged_energy, battery') \<Rightarrow>
                         if time_step_hours = 0 then (Inl ZeroDivisionError, battery')
                         else (let solar_to_battery_kw = charged_energy / time_step_hours;
                                   rejected_energy = offered_energy - charged_energy
                               in (Inr (solar_to_battery_kw, rejected_energy / time_step_hours),
                                   battery')))
               else (Inr (0, solar_remaining), battery)) of
           (Inl err, battery1) \<Rightarrow> (Inl err, battery1, grid1)
         | (Inr (solar_to_battery_kw, solar_remaining'), battery1) \<Rightarrow>
             (let (solar_to_load_kw, deficit, curtailed_kw) =
                    (if solar_remaining' > 0 then
                       (let solar_to_load_kw = min solar_remaining' load_kw;
                            deficit = load_kw - solar_to_load_kw
                        in (solar_to_load_kw, deficit,
                            (if solar_remaining' > solar_to_load_kw
                             then solar_remaining' - solar_to_load_kw else 0)))
                     else (0, load_kw, 0))
              in case (if deficit > 0 then
                         (let requested_energy = deficit * time_step_hours
                          in case discharge battery1 requested_energy of
                               Inl err \<Rightarrow> (Inl err, battery1)
                             | Inr (discharged_energy, battery') \<Rightarrow>
                                 if time_step_hours = 0
                                 then (Inl ZeroDivisionError, battery')
                                 else (let discharged_power =
                                             discharged_energy / time_step_hours
                                       in (Inr (discharged_power,
                                                deficit - discharged_power),
                                           battery')))
                       else (Inr (0, deficit), battery1)) of
                   (Inl err, battery2) \<Rightarrow> (Inl err, battery2, grid1)
                 | (Inr (battery_to_load_kw, deficit'), battery2) \<Rightarrow>
                     (let (grid_to_load_kw, grid2) =
                            (if deficit' > 0
                             then (deficit',
                                   snd (import_energy grid1 deficit' time_step_hours))
                             else (0, grid1))
                      in (Inr (make_flows solar_to_load_kw solar_to_battery_kw solar_to_grid_kw
                                 battery_to_load_kw grid_to_load_kw curtailed_kw),
                          battery2, grid2))))"

text \<open>
  \<open>EnergyManagementSystem\<close> holds the strategy name; \<open>distribute_energy\<close> dispatches on
  it and raises \<open>ValueError\<close> on any other name.
\<close>

record EnergyManagementSystem =
  strategy :: string

definition distribute_energy ::
  "EnergyManagementSystem \<Rightarrow> real \<Rightarrow> real \<Rightarrow> Battery \<Rightarrow> Grid \<Rightarrow> real \<Rightarrow> ems_result" where
  "distribute_energy ems solar_kw load_kw battery grid time_step_hours =
     (if strategy ems = ''LOAD_PRIORITY''
      then load_priority solar_kw load_kw battery grid time_step_hours
      else if strategy ems = ''CHARGE_PRIORITY''
      then charge_priority solar_kw load_kw battery grid time_step_hours
      else if strategy ems = ''PRODUCE_PRIORITY''
      then produce_priority solar_kw load_kw battery grid time_step_hours
      else (Inl (ValueError (''Unknown strategy: '' @ strategy ems)), battery, grid))"

text \<open>\<open>EnergyManagementSystem.__init__\<close> stores the name as given; it does not validate it.\<close>

definition EnergyManagementSystem_init :: "string \<Rightarrow> EnergyManagementSystem" where
  "EnergyManagementSystem_init s = \<lparr>strategy = s\<rparr>"

section \<open>Concrete objects used in the scenarios\<close>

text \<open>
  The battery of the scenario, \<open>Battery(capacity_kwh=13.5, efficiency=0.9, min_soc=0.05)\<close>,
  as \<open>__init__\<close> leaves it, and a battery with round-trip efficiency one quarter, so that
  its one-way efficiency is the rational number one half.
\<close>

definition scenario_battery :: Battery where
  "scenario_battery =
     \<lparr>capacity_kwh = 27 / 2, efficiency = 9 / 10, min_soc = 1 / 20,
      energy_kwh = 27 / 4, min_energy_kwh = 27 / 40, one_way_efficiency = sqrt (9 / 10)\<rparr>"

definition lossy_battery :: Battery where
  "lossy_battery =
     \<lparr>capacity_kwh = 100, efficiency = 1 / 4, min_soc = 0,
      energy_kwh = 50, min_energy_kwh = 0, one_way_efficiency = 1 / 2\<rparr>"

text \<open>
  The two balances of a flow breakdown, each up to what rounding four, respectively three,
  fields to six decimals can add.
\<close>

definition within_tolerance :: "real \<Rightarrow> real \<Rightarrow> flows \<Rightarrow> bool" where
  "within_tolerance solar load f \<longleftrightarrow>
     solar_to_load f + solar_to_battery f + solar_to_grid f + curtailed f
       \<le> solar + 2 / 10 ^ 6 \<and>
     load - 3 / (2 * 10 ^ 6) \<le> solar_to_load f + battery_to_load f + grid_to_load f"

section \<open>The pseudo-random generator (Python's \<open>random\<close> module)\<close>

text \<open>
  The module-level generator is one piece of global state, read and advanced by every
  call. The library is not part of the repository, so its functions are parameters: a
  state type \<open>'r\<close> and, for each function the simulator calls, the value it returns and
  the state it leaves. \<open>random.choices([0, 1, 2, 3], weights)[0]\<close> is the level drawn.
\<close>

record 'r random_module =
  rng_seed :: "int \<Rightarrow> 'r"
  rng_random :: "'r \<Rightarrow> real \<times> 'r"
  rng_uniform :: "real \<Rightarrow> real \<Rightarrow> 'r \<Rightarrow> real \<times> 'r"
  rng_randint :: "int \<Rightarrow> int \<Rightarrow> 'r \<Rightarrow> int \<times> 'r"
  rng_choices :: "real list \<Rightarrow> 'r \<Rightarrow> nat \<times> 'r"

section \<open>Load (Simulator/src/Load.py)\<close>

record Load =
  base_load_kw :: real
  peak_hours_max_kw :: real
  peak_hours_start :: int
  peak_hours_end :: int

text \<open>The scheduled events set by \<open>Load.__init__\<close>: hour, probability, minimum and maximum kW.\<close>

definition scheduled_events :: "(int \<times> real \<times> real \<times> real) list" where
  "scheduled_events =
     [(6, 7 / 10, 1, 3 / 2), (7, 1 / 2, 4 / 5, 6 / 5), (8, 2 / 5, 4 / 5, 6 / 5),
      (12, 3 / 5, 1, 3 / 2), (22, 3 / 10, 1 / 2, 1)]"

text \<open>\<open>int(x)\<close> on a float truncates towards zero.\<close>

definition py_int :: "real \<Rightarrow> int" where
  "py_int x = (if 0 \<le> x then \<lfloor>x\<rfloor> else \<lceil>x\<rceil>)"

text \<open>The \<open>for\<close> loop over the scheduled events in \<open>Load.generate\<close>.\<close>

fun events_loop ::
  "'r random_module \<Rightarrow> int \<Rightarrow> (int \<times> real \<times> real \<times> real) list \<Rightarrow> real \<Rightarrow> 'r \<Rightarrow> real \<times> 'r"
  where
  "events_loop R hour_of_day [] total_demand rng = (total_demand, rng)"
| "events_loop R hour_of_day ((event_hour, probability, min_kw, max_kw) # events)
       total_demand rng =
     (if hour_of_day = event_hour then
        (let (x, rng1) = rng_random R rng
         in if x < probability then
              (let (u, rng2) = rng_uniform R min_kw max_kw rng1
               in events_loop R hour_of_day events (total_demand + u) rng2)
            else events_loop R hour_of_day events total_demand rng1)
      else events_loop R hour_of_day events total_demand rng)"

text \<open>\<open>Load.generate\<close>: the demand and the generator state after its draws.\<close>

definition Load_generate :: "'r random_module \<Rightarrow> Load \<Rightarrow> real \<Rightarrow> 'r \<Rightarrow> real \<times> 'r" where
  "Load_generate R ld hour_arg rng =
     (let hour_of_day = py_int hour_arg;
          total_demand = base_load_kw ld;
          (total_demand1, rng1) =
            (if peak_hours_start ld \<le> hour_of_day \<and> hour_of_day < peak_hours_end ld then
               (let (u, rng') = rng_uniform R 1 (peak_hours_max_kw ld) rng
                in (total_demand + u, rng'))
             else events_loop R hour_of_day scheduled_events total_demand rng);
          (x, rng2) = rng_random R rng1
      in if x < 3 / 10 then
           (let (u, rng3) = rng_uniform R 0 (4 / 5) rng2 in (total_demand1 + u, rng3))
         else (total_demand1, rng2))"

section \<open>Cloud coverage (Simulator/src/CloudCoverage.py)\<close>

definition PROBABILITIES :: "string \<rightharpoonup> real list" where
  "PROBABILITIES =
     [''spring'' \<mapsto> [1 / 10, 3 / 10, 2 / 5, 1 / 5],
      ''summer'' \<mapsto> [1 / 20, 3 / 20, 3 / 10, 1 / 2],
      ''fall'' \<mapsto> [1 / 5, 2 / 5, 3 / 10, 1 / 10],
      ''winter'' \<mapsto> [3 / 10, 2 / 5, 1 / 5, 1 / 10]]"

definition COVERAGE_RANGES :: "(real \<times> real) list" where
  "COVERAGE_RANGES = [(0, 1 / 5), (1 / 5, 3 / 5), (3 / 5, 4 / 5), (4 / 5, 9 / 10)]"

record CloudCoverage =
  season :: string

definition CloudCoverage_init :: "string \<Rightarrow> error + CloudCoverage" where
  "CloudCoverage_init s =
     (if s \<notin> dom PROBABILITIES then Inl (ValueError (''Invalid season: '' @ s))
      else Inr \<lparr>season = s\<rparr>)"

text \<open>
  \<open>CloudCoverage.get_daily_coverage\<close>: one \<open>random.choices\<close> call, then one
  \<open>random.uniform\<close> call.
\<close>

definition get_daily_coverage ::
  "'r random_module \<Rightarrow> CloudCoverage \<Rightarrow> 'r \<Rightarrow> error + (real \<times> 'r)" where
  "get_daily_coverage R cc rng =
     (case PROBABILITIES (season cc) of
        None \<Rightarrow> Inl (KeyError (season cc))
      | Some probabilities \<Rightarrow>
          (let (level, rng1) = rng_choices R probabilities rng
           in if level < length COVERAGE_RANGES then
                (let (min_coverage, max_coverage) = COVERAGE_RANGES ! level;
                     (coverage, rng2) = rng_uniform R min_coverage max_coverage rng1
                 in Inr (coverage, rng2))
              else Inl IndexError))"

section \<open>Inverter (Simulator/src/Inverter.py)\<close>

record Inverter =
  max_output_kw :: real
  failure_rate :: real
  min_failure_duration :: int
  max_failure_duration :: int
  is_failing :: bool
  failure_hours_remaining :: real

definition Inverter_init :: "real \<Rightarrow> real \<Rightarrow> int \<Rightarrow> int \<Rightarrow> Inverter" where
  "Inverter_init max_output rate min_duration max_duration =
     \<lparr>max_output_kw = max_output, failure_rate = rate, min_failure_duration = min_duration,
      max_failure_duration = max_duration, is_failing = False, failure_hours_remaining = 0\<rparr>"

definition apply_limit :: "Inverter \<Rightarrow> real \<Rightarrow> real" where
  "apply_limit inverter solar_generation =
     (if is_failing inverter then 0 else min solar_generation (max_output_kw inverter))"

text \<open>
  \<open>Inverter.check_failure\<close>. \<open>random.randint(a, b)\<close> raises \<open>ValueError\<close> when \<open>b < a\<close>.
\<close>

definition check_failure :: "'r random_module \<Rightarrow> Inverter \<Rightarrow> 'r \<Rightarrow> error + (Inverter \<times> 'r)" where
  "check_failure R inverter rng =
     (if is_failing inverter then Inr (inverter, rng)
      else (let (x, rng1) = rng_random R rng
            in if x < failure_rate inverter then
                 (if max_failure_duration inverter < min_failure_duration inverter
                  then Inl (ValueError ''empty range for randrange()'')
                  else (let (hours, rng2) =
                              rng_randint R (min_failure_duration inverter)
                                (max_failure_duration inverter) rng1
                        in Inr (inverter\<lparr>is_failing := True,
                                    failure_hours_remaining := of_int hours\<rparr>, rng2)))
               else Inr (inverter, rng1)))"

definition update :: "Inverter \<Rightarrow> real \<Rightarrow> Inverter" where
  "update inverter hours_passed =
     (if is_failing inverter then
        (let remaining = failure_hours_remaining inverter - hours_passed
         in if remaining \<le> 0
            then inverter\<lparr>is_failing := False, failure_hours_remaining := 0\<rparr>
            else inverter\<lparr>failure_hours_remaining := remaining\<rparr>)
      else inverter)"

definition is_operational :: "Inverter \<Rightarrow> bool" where
  "is_operational inverter = (if is_failing inverter then False else True)"

section \<open>Solar panel\<close>

record SolarPanel =
  peak_power_kw :: real

text \<open>
  Modelled from the spec: \<open>SolarPanel.generate\<close> of Simulator/src/SolarPanel.py, the module
  that Simulation.py imports and constructs with \<open>peak_power_kw\<close>; it is not among the
  sources. The spec (4.3) gives it as a pure function of the hour of day and the cloud
  coverage: zero outside the daylight window (hour \<open>< 6\<close> or \<open>\<ge> 18\<close>), and inside it
  \<open>peak \<times> sin(\<pi> \<times> (hour - 6) / 12)\<close> scaled by \<open>1 - cloud_coverage\<close>.
\<close>

definition SolarPanel_generate :: "SolarPanel \<Rightarrow> real \<Rightarrow> real \<Rightarrow> real" where
  "SolarPanel_generate sp hour_of_day cloud =
     (if hour_of_day < 6 \<or> hour_of_day \<ge> 18 then 0
      else peak_power_kw sp * sin (pi * (hour_of_day - 6) / 12) * (1 - cloud))"

section \<open>Simulation (Simulator/src/Simulation.py)\<close>

text \<open>
  The configuration read from the JSON file, with the fields \<open>Simulation\<close> uses. The three
  \<open>count\<close> entries and \<open>random_seed\<close> are read with \<open>.get\<close> and may be absent. The start
  date only labels the records: time stamps are kept as minutes after it.
\<close>

record config =
  cfg_duration_days :: int
  cfg_time_step_minutes :: int
  cfg_season :: string
  cfg_random_seed :: "int option"
  cfg_strategy :: string
  cfg_battery_count :: "int option"
  cfg_battery_unit_capacity_kwh :: real
  cfg_battery_efficiency :: real
  cfg_battery_min_soc :: real
  cfg_solar_count :: "int option"
  cfg_solar_unit_peak_power_kw :: real
  cfg_inverter_count :: "int option"
  cfg_inverter_unit_max_output_kw :: real
  cfg_inverter_failure_rate :: real
  cfg_inverter_min_failure_duration_hours :: int
  cfg_inverter_max_failure_duration_hours :: int
  cfg_load_base_load_kw :: real
  cfg_load_peak_hours_max_kw :: real
  cfg_load_peak_hours_start :: int
  cfg_load_peak_hours_end :: int
  cfg_grid_import_cost_per_kwh :: real
  cfg_grid_export_revenue_per_kwh :: real
  cfg_grid_export_limit_kw :: real

text \<open>One entry of \<open>hourly_data\<close>; \<open>rec_flows\<close> holds the seven flow entries.\<close>

record step_record =
  timestamp :: int
  step :: int
  hour :: real
  solar_generated_kw :: real
  solar_available_kw :: real
  load_demand_kw :: real
  cloud_coverage :: real
  battery_soc :: real
  rec_flows :: flows
  inverter_operational :: bool

text \<open>One entry of \<open>daily_summaries\<close>.\<close>

record day_summary =
  day :: int
  solar_generated_kwh :: real
  load_consumed_kwh :: real
  grid_imported_kwh :: real
  grid_exported_kwh :: real
  curtailed_kwh :: real
  battery_soc_end :: real
  self_sufficiency_percent :: real

text \<open>
  The \<open>Simulation\<close> object, together with the state of the module-level generator, which
  \<open>__init__\<close> seeds. An entry of \<open>events_log\<close> is the time stamp and the remaining hours
  that the message reports.
\<close>

record 'r Simulation =
  sim_config :: config
  sim_actual_seed :: int
  sim_rng :: 'r
  sim_battery :: Battery
  sim_solar_panel :: SolarPanel
  sim_cloud_coverage :: CloudCoverage
  sim_inverter :: Inverter
  sim_load :: Load
  sim_grid :: Grid
  sim_ems :: EnergyManagementSystem
  sim_hourly_data :: "step_record list"
  sim_daily_summaries :: "day_summary list"
  sim_events_log :: "(int \<times> real) list"
  sim_current_cloud_coverage :: real

text \<open>
  \<open>Simulation.__init__\<close>. \<open>clock\<close> is \<open>int(time.time() * 1000000)\<close>, read only when the
  configuration has no seed. The first cloud coverage is drawn at the end.
\<close>

definition Simulation_init :: "'r random_module \<Rightarrow> int \<Rightarrow> config \<Rightarrow> error + 'r Simulation" where
  "Simulation_init R clock cfg =
     (let actual_seed = (case cfg_random_seed cfg of
                           None \<Rightarrow> clock mod 2147483647
                         | Some config_seed \<Rightarrow> config_seed);
          rng0 = rng_seed R actual_seed;
          battery_count = (case cfg_battery_count cfg of None \<Rightarrow> 1 | Some c \<Rightarrow> c);
          battery_total = of_int battery_count * cfg_battery_unit_capacity_kwh cfg;
          solar_count = (case cfg_solar_count cfg of None \<Rightarrow> 1 | Some c \<Rightarrow> c);
          solar_total = of_int solar_count * cfg_solar_unit_peak_power_kw cfg;
          inverter_count = (case cfg_inverter_count cfg of None \<Rightarrow> 1 | Some c \<Rightarrow> c);
          inverter_total = of_int inverter_count * cfg_inverter_unit_max_output_kw cfg
      in case Battery_init battery_total (cfg_battery_efficiency cfg)
                (cfg_battery_min_soc cfg) of
           Inl err \<Rightarrow> Inl err
         | Inr battery \<Rightarrow>
             (case CloudCoverage_init (cfg_season cfg) of
                Inl err \<Rightarrow> Inl err
              | Inr cc \<Rightarrow>
                  (case get_daily_coverage R cc rng0 of
                     Inl err \<Rightarrow> Inl err
                   | Inr (coverage, rng1) \<Rightarrow>
                       Inr \<lparr>sim_config = cfg,
                            sim_actual_seed = actual_seed,
                            sim_rng = rng1,
                            sim_battery = battery,
                            sim_solar_panel = \<lparr>peak_power_kw = solar_total\<rparr>,
                            sim_cloud_coverage = cc,
                            sim_inverter =
                              Inverter_init inverter_total (cfg_inverter_failure_rate cfg)
                                (cfg_inverter_min_failure_duration_hours cfg)
                                (cfg_inverter_max_failure_duration_hours cfg),
                            sim_load =
                              \<lparr>base_load_kw = cfg_load_base_load_kw cfg,
                               peak_hours_max_kw = cfg_load_peak_hours_max_kw cfg,
                               peak_hours_start = cfg_load_peak_hours_start cfg,
                               peak_hours_end = cfg_load_peak_hours_end cfg\<rparr>,
                            sim_grid =
                              Grid_init (cfg_grid_import_cost_per_kwh cfg)
                                (cfg_grid_export_revenue_per_kwh cfg)
                                (cfg_grid_export_limit_kw cfg),
                            sim_ems = EnergyManagementSystem_init (cfg_strategy cfg),
                            sim_hourly_data = [],
                            sim_daily_summaries = [],
                            sim_events_log = [],
                            sim_current_cloud_coverage = coverage\<rparr>)))"

text \<open>The daily accumulators and the day counter of \<open>_simulation_loop\<close>.\<close>

record loop_vars =
  daily_solar :: real
  daily_load :: real
  daily_grid_import :: real
  daily_grid_export :: real
  daily_curtailed :: real
  current_day :: int

text \<open>\<open>Simulation._log_daily_summary\<close>.\<close>

definition log_daily_summary ::
  "'r Simulation \<Rightarrow> loop_vars \<Rightarrow> real \<Rightarrow> error + 'r Simulation" where
  "log_daily_summary sim lv self_sufficiency =
     (case get_soc (sim_battery sim) of
        Inl err \<Rightarrow> Inl err
      | Inr soc \<Rightarrow>
          Inr (sim\<lparr>sim_daily_summaries := sim_daily_summaries sim @
                 [\<lparr>day = current_day lv + 1,
                   solar_generated_kwh = daily_solar lv,
                   load_consumed_kwh = daily_load lv,
                   grid_imported_kwh = daily_grid_import lv,
                   grid_exported_kwh = daily_grid_export lv,
                   curtailed_kwh = daily_curtailed lv,
                   battery_soc_end = soc,
                   self_sufficiency_percent = self_sufficiency\<rparr>]\<rparr>))"

text \<open>
  The self-sufficiency of a day, guarded against a zero load, as both places that log a
  summary compute it.
\<close>

definition daily_self_sufficiency :: "loop_vars \<Rightarrow> real" where
  "daily_self_sufficiency lv =
     (if daily_load lv > 0 then (1 - daily_grid_import lv / daily_load lv) * 100 else 0)"

text \<open>
  One iteration of the \<open>while\<close> loop of \<open>_simulation_loop\<close>, for the step counter
  \<open>current_step\<close> before its increment. An exception ends the run, so the result is the
  exception alone. \<open>env.timeout\<close> of SimPy raises \<open>ValueError\<close> on a negative delay. The
  progress message divides by \<open>duration_days\<close>.
\<close>

definition simulation_step ::
  "'r random_module \<Rightarrow> real \<Rightarrow> int \<Rightarrow> int \<Rightarrow> 'r Simulation \<Rightarrow> loop_vars
     \<Rightarrow> error + ('r Simulation \<times> loop_vars)" where
  "simulation_step R time_step_hours steps_per_day current_step sim lv =
     (let time_step_minutes = cfg_time_step_minutes (sim_config sim);
          minutes_since_midnight = (current_step * time_step_minutes) mod (24 * 60);
          hour_of_day = of_int minutes_since_midnight / 60;
          current_date = current_step * time_step_minutes;
          solar_available =
            SolarPanel_generate (sim_solar_panel sim) hour_of_day
              (sim_current_cloud_coverage sim);
          solar_generated =
            (if is_operational (sim_inverter sim)
             then apply_limit (sim_inverter sim) solar_available else 0);
          (load_demand, rng1) = Load_generate R (sim_load sim) hour_of_day (sim_rng sim)
      in case distribute_energy (sim_ems sim) solar_generated load_demand
                (sim_battery sim) (sim_grid sim) time_step_hours of
           (Inl err, battery', grid') \<Rightarrow> Inl err
         | (Inr fl, battery', grid') \<Rightarrow>
             (case get_soc battery' of
                Inl err \<Rightarrow> Inl err
              | Inr soc \<Rightarrow>
                  (let entry =
                         \<lparr>timestamp = current_date, step = current_step, hour = hour_of_day,
                          solar_generated_kw = solar_generated,
                          solar_available_kw = solar_available,
                          load_demand_kw = load_demand,
                          cloud_coverage = sim_current_cloud_coverage sim,
                          battery_soc = soc, rec_flows = fl,
                          inverter_operational = is_operational (sim_inverter sim)\<rparr>;
                       lv1 =
                         lv\<lparr>daily_solar := daily_solar lv +
                              (solar_to_load fl + solar_to_battery fl + solar_to_grid fl)
                                * time_step_hours,
                            daily_load := daily_load lv + load_demand * time_step_hours,
                            daily_grid_import :=
                              daily_grid_import lv + grid_to_load fl * time_step_hours,
                            daily_grid_export :=
                              daily_grid_export lv + solar_to_grid fl * time_step_hours,
                            daily_curtailed :=
                              daily_curtailed lv + curtailed fl * time_step_hours\<rparr>
                   in if time_step_minutes < 0 then Inl (ValueError ''Negative delay'')
                      else
                        (let current_step' = current_step + 1;
                             sim1 =
                               sim\<lparr>sim_rng := rng1, sim_battery := battery',
                                   sim_grid := grid',
                                   sim_inverter := update (sim_inverter sim) time_step_hours,
                                   sim_hourly_data := sim_hourly_data sim @ [entry]\<rparr>
                         in if steps_per_day = 0 then Inl ZeroDivisionError
                            else if current_step' mod steps_per_day = 0 \<and> current_step' > 0
                            then
                              (case log_daily_summary sim1 lv1 (daily_self_sufficiency lv1) of
                                 Inl err \<Rightarrow> Inl err
                               | Inr sim2 \<Rightarrow>
                                   (let lv2 =
                                          \<lparr>daily_solar = 0, daily_load = 0,
                                           daily_grid_import = 0, daily_grid_export = 0,
                                           daily_curtailed = 0,
                                           current_day = current_day lv1 + 1\<rparr>
                                    in if current_day lv2 mod 5 = 0 \<and>
                                          cfg_duration_days (sim_config sim2) = 0
                                       then Inl ZeroDivisionError
                                       else
                                         (case check_failure R (sim_inverter sim2)
                                                 (sim_rng sim2) of
                                            Inl err \<Rightarrow> Inl err
                                          | Inr (inverter2, rng2) \<Rightarrow>
                                              (let events =
                                                     (if is_failing inverter2
                                                      then sim_events_log sim2 @
                                                        [(current_date,
                                                          failure_hours_remaining inverter2)]
                                                      else sim_events_log sim2)
                                               in case get_daily_coverage R
                                                         (sim_cloud_coverage sim2) rng2 of
                                                    Inl err \<Rightarrow> Inl err
                                                  | Inr (coverage, rng3) \<Rightarrow>
                                                      Inr (sim2\<lparr>sim_rng := rng3,
                                                             sim_inverter := inverter2,
                                                             sim_events_log := events,
                                                             sim_current_cloud_coverage :=
                                                               coverage\<rparr>,
                                                           lv2)))))
                            else Inr (sim1, lv1)))))"

text \<open>
  The \<open>while\<close> loop of \<open>_simulation_loop\<close> and the summary of a last, incomplete day.
  The step counter grows by one in each iteration, so the loop ends.
\<close>

function simulation_loop ::
  "'r random_module \<Rightarrow> real \<Rightarrow> int \<Rightarrow> int \<Rightarrow> int \<Rightarrow> 'r Simulation \<Rightarrow> loop_vars
     \<Rightarrow> error + 'r Simulation" where
  "simulation_loop R time_step_hours steps_per_day total_steps current_step sim lv =
     (if current_step < total_steps then
        (case simulation_step R time_step_hours steps_per_day current_step sim lv of
           Inl err \<Rightarrow> Inl err
         | Inr (sim', lv') \<Rightarrow>
             simulation_loop R time_step_hours steps_per_day total_steps
               (current_step + 1) sim' lv')
      else if daily_solar lv > 0 \<or> daily_load lv > 0
      then log_daily_summary sim lv (daily_self_sufficiency lv)
      else Inr sim)"
  by pat_completeness auto
termination
  by (relation "measure (\<lambda>(R, tsh, spd, total_steps, current_step, sim, lv).
                   nat (total_steps - current_step))") auto

text \<open>
  \<open>Simulation.run\<close>: the number of steps, then the loop from step 0 with empty
  accumulators. The result is the simulation object at the end of the loop; its
  \<open>hourly_data\<close>, \<open>daily_summaries\<close> and \<open>events_log\<close> are the \<open>data\<close> section that
  \<open>_compile_results\<close> returns beside the aggregates it computes from them.
\<close>

definition run :: "'r random_module \<Rightarrow> 'r Simulation \<Rightarrow> error + 'r Simulation" where
  "run R sim =
     (let duration_days = cfg_duration_days (sim_config sim);
          time_step_minutes = cfg_time_step_minutes (sim_config sim)
      in if time_step_minutes = 0 then Inl ZeroDivisionError
         else (let total_steps = (duration_days * 24 * 60) div time_step_minutes;
                   time_step_hours = of_int time_step_minutes / 60;
                   steps_per_day = (24 * 60) div time_step_minutes
               in simulation_loop R time_step_hours steps_per_day total_steps 0 sim
                    \<lparr>daily_solar = 0, daily_load = 0, daily_grid_import = 0,
                     daily_grid_export = 0, daily_curtailed = 0, current_day = 0\<rparr>))"

text \<open>A complete run: construct the simulation from the configuration, then run it.\<close>

definition simulate :: "'r random_module \<Rightarrow> int \<Rightarrow> config \<Rightarrow> error + 'r Simulation" where
  "simulate R clock cfg =
     (case Simulation_init R clock cfg of Inl err \<Rightarrow> Inl err | Inr sim \<Rightarrow> run R sim)"

text \<open>
  The columns of a step record that come from the weather and the household: the cloud
  coverage, the solar power available and the load demand.
\<close>

definition weather_columns :: "step_record \<Rightarrow> real \<times> real \<times> real" where
  "weather_columns entry = (cloud_coverage entry, solar_available_kw entry, load_demand_kw entry)"

section \<open>The environment of a run\<close>

text \<open>
  What the weather and the household of a step depend on: the generator, the inverter, the
  cloud coverage of the day, the static solar, load and season objects, and the two
  configuration entries that fix the clock. \<open>environment_step\<close> is one loop iteration as
  it acts on these alone, with the weather columns it records; \<open>None\<close> stands for an
  exception raised by the inverter's failure check or by the cloud coverage draw.
\<close>

type_synonym 'r environment =
  "'r \<times> Inverter \<times> real \<times> SolarPanel \<times> Load \<times> CloudCoverage \<times> int \<times> int"

definition environment :: "'r Simulation \<Rightarrow> 'r environment" where
  "environment s =
     (sim_rng s, sim_inverter s, sim_current_cloud_coverage s, sim_solar_panel s, sim_load s,
      sim_cloud_coverage s, cfg_time_step_minutes (sim_config s),
      cfg_duration_days (sim_config s))"

definition environment_step ::
  "'r random_module \<Rightarrow> real \<Rightarrow> int \<Rightarrow> int \<Rightarrow> 'r environment
     \<Rightarrow> ((real \<times> real \<times> real) \<times> 'r environment) option" where
  "environment_step R tsh spd k e =
     (case e of (rng, inverter, cloud, sp, ld, cc, tsm, days) \<Rightarrow>
        (let hour_of_day = of_int ((k * tsm) mod (24 * 60)) / 60;
             solar_available = SolarPanel_generate sp hour_of_day cloud;
             (load_demand, rng1) = Load_generate R ld hour_of_day rng;
             inverter1 = update inverter tsh;
             cols = (cloud, solar_available, load_demand)
         in if (k + 1) mod spd = 0 \<and> k + 1 > 0 then
              (case check_failure R inverter1 rng1 of
                 Inl err \<Rightarrow> None
               | Inr (inverter2, rng2) \<Rightarrow>
                   (case get_daily_coverage R cc rng2 of
                      Inl err \<Rightarrow> None
                    | Inr (coverage, rng3) \<Rightarrow>
                        Some (cols, (rng3, inverter2, coverage, sp, ld, cc, tsm, days))))
            else Some (cols, (rng1, inverter1, cloud, sp, ld, cc, tsm, days))))"

section \<open>A concrete run\<close>

text \<open>
  A generator whose state counts the draws made, starting from the seed, and a one-day
  configuration with two steps (midnight and noon).
\<close>

definition counting_random :: "nat random_module" where
  "counting_random =
     \<lparr>rng_seed = (\<lambda>s. nat s),
      rng_random = (\<lambda>n. (1 / 2, Suc n)),
      rng_uniform = (\<lambda>a b n. ((a + b) / 2, Suc n)),
      rng_randint = (\<lambda>a b n. (a, Suc n)),
      rng_choices = (\<lambda>weights n. (0, Suc n))\<rparr>"

definition example_config :: config where
  "example_config =
     \<lparr>cfg_duration_days = 1, cfg_time_step_minutes = 720, cfg_season = ''summer'',
      cfg_random_seed = Some 42, cfg_strategy = ''LOAD_PRIORITY'',
      cfg_battery_count = None, cfg_battery_unit_capacity_kwh = 27 / 2,
      cfg_battery_efficiency = 1, cfg_battery_min_soc = 1 / 20,
      cfg_solar_count = Some 2, cfg_solar_unit_peak_power_kw = 4,
      cfg_inverter_count = None, cfg_inverter_unit_max_output_kw = 5,
      cfg_inverter_failure_rate = 1 / 200,
      cfg_inverter_min_failure_duration_hours = 4,
      cfg_inverter_max_failure_duration_hours = 72,
      cfg_load_base_load_kw = 1 / 2, cfg_load_peak_hours_max_kw = 3,
      cfg_load_peak_hours_start = 18, cfg_load_peak_hours_end = 21,
      cfg_grid_import_cost_per_kwh = 3 / 400, cfg_grid_export_revenue_per_kwh = 9 / 1000,
      cfg_grid_export_limit_kw = 20\<rparr>"

section \<open>Properties of the grid\<close>

text \<open>
  C7: whenever the offered power exceeds the export limit, \<open>export_energy\<close> returns exactly
  the export limit as the exported power, whatever the time step; the limit itself is left
  as it was, so the same cap applies to the next call.
\<close>

theorem export_energy_capped:
  "export_limit_kw g < p \<Longrightarrow>
     fst (export_energy g p dt) = export_limit_kw g \<and>
     export_limit_kw (snd (export_energy g p dt)) = export_limit_kw g"
  by (simp add: export_energy_def Let_def)

theorem export_energy_capped_witness:
  "export_limit_kw (Grid_init (3 / 400) (9 / 1000) 20) < 25 \<and>
   fst (export_energy (Grid_init (3 / 400) (9 / 1000) 20) 25 (1 / 4)) = 20 \<and>
   export_limit_kw (snd (export_energy (Grid_init (3 / 400) (9 / 1000) 20) 25 (1 / 4))) = 20"
proof -
  have h: "export_limit_kw (Grid_init (3 / 400) (9 / 1000) 20) < 25"
    by (simp add: Grid_init_def)
  show ?thesis
    using h export_energy_capped [OF h, of "1 / 4"] by (simp add: Grid_init_def)
qed

section \<open>Properties of the battery\<close>

lemma sqrt_nine_tenths_bounds:
  "94868 / 100000 < sqrt (9 / 10)" "sqrt (9 / 10) < 94869 / 100000"
proof -
  show "94868 / 100000 < sqrt (9 / 10)"
    by (rule real_less_rsqrt) (simp add: power2_eq_square)
  show "sqrt (9 / 10) < 94869 / 100000"
    by (rule real_less_lsqrt) (simp_all add: power2_eq_square)
qed

lemma sqrt_quarter: "sqrt (1 / 4) = 1 / 2"
  by (rule real_sqrt_unique) (simp_all add: power2_eq_square)

lemma scenario_battery_init: "Battery_init (27 / 2) (9 / 10) (1 / 20) = Inr scenario_battery"
  by (simp add: Battery_init_def scenario_battery_def)

lemma lossy_battery_init: "Battery_init 100 (1 / 4) 0 = Inr lossy_battery"
  by (simp add: Battery_init_def lossy_battery_def sqrt_quarter)

lemma charge_within_headroom:
  assumes "0 < one_way_efficiency b"
    and "e * one_way_efficiency b \<le> capacity_kwh b - energy_kwh b"
  shows "charge b e = Inr (e, b\<lparr>energy_kwh := energy_kwh b + e * one_way_efficiency b\<rparr>)"
  using assms by (simp add: charge_def Let_def min_def)

lemma charge_full:
  assumes "0 < one_way_efficiency b"
    and "capacity_kwh b - energy_kwh b \<le> e * one_way_efficiency b"
  shows "charge b e = Inr ((capacity_kwh b - energy_kwh b) / one_way_efficiency b,
                          b\<lparr>energy_kwh := capacity_kwh b\<rparr>)"
  using assms by (auto simp add: charge_def Let_def min_def)

text \<open>
  C3, as stated, fails on the code. At 50 percent state of charge the scenario battery has
  6.75 kWh of headroom, less than \<open>10 \<times> \<surd>0.9\<close>, so \<open>charge(10.0)\<close> stores 6.75 kWh and
  returns \<open>6.75 / \<surd>0.9\<close>, below 9. And where the headroom suffices (the same battery
  drained to its floor), \<open>charge(10.0)\<close> stores \<open>10 \<times> \<surd>0.9\<close> but returns 10, the whole
  offer, not 9.4868.
\<close>

theorem charge_scenario_counterexample:
  "Battery_init (27 / 2) (9 / 10) (1 / 20) = Inr scenario_battery \<and>
   capacity_kwh scenario_battery - energy_kwh scenario_battery < 10 * sqrt (9 / 10) \<and>
   charge scenario_battery 10 =
     Inr (27 / 4 / sqrt (9 / 10), scenario_battery\<lparr>energy_kwh := 27 / 2\<rparr>) \<and>
   27 / 2 - energy_kwh scenario_battery < 9 \<and>
   27 / 4 / sqrt (9 / 10) < 9 \<and>
   9 < 10 * sqrt (9 / 10) \<and>
   charge (scenario_battery\<lparr>energy_kwh := 27 / 40\<rparr>) 10 =
     Inr (10, scenario_battery\<lparr>energy_kwh := 27 / 40 + 10 * sqrt (9 / 10)\<rparr>)"
proof -
  note s = sqrt_nine_tenths_bounds
  have pos: "0 < one_way_efficiency scenario_battery"
    by (simp add: scenario_battery_def)
  have full: "capacity_kwh scenario_battery - energy_kwh scenario_battery
                \<le> 10 * one_way_efficiency scenario_battery"
    using s(1) by (simp add: scenario_battery_def)
  have c1: "charge scenario_battery 10 =
     Inr (27 / 4 / sqrt (9 / 10), scenario_battery\<lparr>energy_kwh := 27 / 2\<rparr>)"
    using charge_full [OF pos full] by (simp add: scenario_battery_def)
  have room: "10 * one_way_efficiency (scenario_battery\<lparr>energy_kwh := 27 / 40\<rparr>)
       \<le> capacity_kwh (scenario_battery\<lparr>energy_kwh := 27 / 40\<rparr>)
          - energy_kwh (scenario_battery\<lparr>energy_kwh := 27 / 40\<rparr>)"
    using s(2) by (simp add: scenario_battery_def)
  have c2: "charge (scenario_battery\<lparr>energy_kwh := 27 / 40\<rparr>) 10 =
     Inr (10, scenario_battery\<lparr>energy_kwh := 27 / 40 + 10 * sqrt (9 / 10)\<rparr>)"
    using charge_within_headroom [OF _ room] by (simp add: scenario_battery_def)
  have small: "27 / 4 / sqrt (9 / 10) < 9"
  proof -
    have "27 / 4 < 9 * (94868 / 100000 :: real)" by simp
    also have "\<dots> < 9 * sqrt (9 / 10)" using s(1) by simp
    finally show ?thesis by (simp add: field_simps)
  qed
  show ?thesis
    using scenario_battery_init c1 c2 small s by (simp add: scenario_battery_def)
qed

text \<open>
  C3, amended: for every state of the scenario battery whose headroom is at least
  \<open>10 \<times> \<surd>0.9\<close> (about 9.4868 kWh), \<open>charge(10.0)\<close> stores \<open>10 \<times> \<surd>0.9\<close> kWh and
  returns 10 kWh consumed, the stored amount divided by the one-way efficiency. At 50
  percent state of charge the headroom is 6.75 kWh: there the call fills the battery and
  returns \<open>6.75 / \<surd>0.9\<close>, about 7.115 kWh.
\<close>

theorem charge_scenario:
  assumes "capacity_kwh b = 27 / 2" and "one_way_efficiency b = sqrt (9 / 10)"
    and "10 * sqrt (9 / 10) \<le> capacity_kwh b - energy_kwh b"
  shows "charge b 10 = Inr (10, b\<lparr>energy_kwh := energy_kwh b + 10 * sqrt (9 / 10)\<rparr>) \<and>
         94868 / 10000 < 10 * sqrt (9 / 10) \<and> 10 * sqrt (9 / 10) < 94869 / 10000 \<and>
         charge scenario_battery 10 =
           Inr (27 / 4 / sqrt (9 / 10), scenario_battery\<lparr>energy_kwh := 27 / 2\<rparr>) \<and>
         7114 / 1000 < 27 / 4 / sqrt (9 / 10) \<and> 27 / 4 / sqrt (9 / 10) < 7116 / 1000"
proof -
  note s = sqrt_nine_tenths_bounds
  have "0 < one_way_efficiency b" using assms(2) by simp
  from charge_within_headroom [OF this, of 10] assms
  have a: "charge b 10 = Inr (10, b\<lparr>energy_kwh := energy_kwh b + 10 * sqrt (9 / 10)\<rparr>)"
    by simp
  have pos: "0 < one_way_efficiency scenario_battery"
    by (simp add: scenario_battery_def)
  have full: "capacity_kwh scenario_battery - energy_kwh scenario_battery
                \<le> 10 * one_way_efficiency scenario_battery"
    using s(1) by (simp add: scenario_battery_def)
  have c1: "charge scenario_battery 10 =
     Inr (27 / 4 / sqrt (9 / 10), scenario_battery\<lparr>energy_kwh := 27 / 2\<rparr>)"
    using charge_full [OF pos full] by (simp add: scenario_battery_def)
  have p: "0 < sqrt (9 / 10 :: real)" by simp
  have lo: "7114 / 1000 < 27 / 4 / sqrt (9 / 10)"
  proof -
    have "7114 / 1000 * sqrt (9 / 10) < 7114 / 1000 * (94869 / 100000 :: real)"
      using s(2) by simp
    also have "\<dots> < 27 / 4" by simp
    finally show ?thesis using p by (simp add: pos_less_divide_eq)
  qed
  have hi: "27 / 4 / sqrt (9 / 10) < 7116 / 1000"
  proof -
    have "27 / 4 < 7116 / 1000 * (94868 / 100000 :: real)" by simp
    also have "\<dots> < 7116 / 1000 * sqrt (9 / 10)" using s(1) by simp
    finally show ?thesis using p by (simp add: pos_divide_less_eq)
  qed
  from a c1 lo hi s show ?thesis by simp
qed

theorem charge_scenario_witness:
  "capacity_kwh (scenario_battery\<lparr>energy_kwh := 27 / 40\<rparr>) = 27 / 2 \<and>
   one_way_efficiency (scenario_battery\<lparr>energy_kwh := 27 / 40\<rparr>) = sqrt (9 / 10) \<and>
   10 * sqrt (9 / 10) \<le> capacity_kwh (scenario_battery\<lparr>energy_kwh := 27 / 40\<rparr>)
       - energy_kwh (scenario_battery\<lparr>energy_kwh := 27 / 40\<rparr>) \<and>
   charge (scenario_battery\<lparr>energy_kwh := 27 / 40\<rparr>) 10 =
     Inr (10, scenario_battery\<lparr>energy_kwh := 27 / 40 + 10 * sqrt (9 / 10)\<rparr>)"
proof -
  have h1: "capacity_kwh (scenario_battery\<lparr>energy_kwh := 27 / 40\<rparr>) = 27 / 2"
    and h2: "one_way_efficiency (scenario_battery\<lparr>energy_kwh := 27 / 40\<rparr>) = sqrt (9 / 10)"
    by (simp_all add: scenario_battery_def)
  have h3: "10 * sqrt (9 / 10) \<le> capacity_kwh (scenario_battery\<lparr>energy_kwh := 27 / 40\<rparr>)
       - energy_kwh (scenario_battery\<lparr>energy_kwh := 27 / 40\<rparr>)"
    using sqrt_nine_tenths_bounds(2) by (simp add: scenario_battery_def)
  from charge_scenario [OF h1 h2 h3] h1 h2 h3 show ?thesis by simp
qed

text \<open>
  C4, as stated, fails on the code. With round-trip efficiency one quarter, capacity 100
  and 50 kWh stored, neither bound binds; \<open>charge(10)\<close> then \<open>discharge(10)\<close> delivers
  10 kWh, not \<open>10 \<times> 0.25 = 2.5\<close> kWh: \<open>discharge\<close> delivers what is requested and
  draws \<open>E / \<surd>\<eta>\<close> from the store.
\<close>

theorem round_trip_counterexample:
  "Battery_init 100 (1 / 4) 0 = Inr lossy_battery \<and>
   charge lossy_battery 10 = Inr (10, lossy_battery\<lparr>energy_kwh := 55\<rparr>) \<and>
   10 * one_way_efficiency lossy_battery < capacity_kwh lossy_battery - energy_kwh lossy_battery \<and>
   discharge (lossy_battery\<lparr>energy_kwh := 55\<rparr>) 10 = Inr (10, lossy_battery\<lparr>energy_kwh := 35\<rparr>) \<and>
   10 / one_way_efficiency lossy_battery < 55 - min_energy_kwh lossy_battery \<and>
   10 * efficiency lossy_battery = 5 / 2"
  using lossy_battery_init
  by (simp add: lossy_battery_def charge_def discharge_def Let_def)

section \<open>Rounding to the nearest double\<close>

text \<open>
  \<open>rne\<close> is within one half of its argument, monotone and odd, and leaves integers as
  they are.
\<close>

lemma rne_error: "\<bar>of_int (rne y) - y\<bar> \<le> 1 / 2"
proof -
  have "0 \<le> y - of_int \<lfloor>y\<rfloor>" "y - of_int \<lfloor>y\<rfloor> < 1" by linarith+
  then show ?thesis by (auto simp add: rne_def Let_def)
qed

lemma rne_of_int [simp]: "rne (of_int k) = k"
  by (simp add: rne_def)

lemma rne_bounds: "\<lfloor>y\<rfloor> \<le> rne y" "rne y \<le> \<lfloor>y\<rfloor> + 1"
  by (auto simp add: rne_def Let_def)

lemma rne_mono: "y \<le> z \<Longrightarrow> rne y \<le> rne z"
proof -
  assume yz: "y \<le> z"
  then have f: "\<lfloor>y\<rfloor> \<le> \<lfloor>z\<rfloor>" by (rule floor_mono)
  show ?thesis
  proof (cases "\<lfloor>y\<rfloor> = \<lfloor>z\<rfloor>")
    case True
    with yz show ?thesis by (auto simp add: rne_def Let_def)
  next
    case False
    with f have "\<lfloor>y\<rfloor> + 1 \<le> \<lfloor>z\<rfloor>" by simp
    with rne_bounds(2) [of y] rne_bounds(1) [of z] show ?thesis by linarith
  qed
qed

lemma rne_minus: "rne (- y) = - rne y"
proof (cases "y = of_int \<lfloor>y\<rfloor>")
  case True
  then obtain k where "y = of_int k" ..
  then have "- y = of_int (- k)" by simp
  then show ?thesis unfolding \<open>y = of_int k\<close> by (metis rne_of_int)
next
  case False
  then have c: "\<lfloor>- y\<rfloor> = - \<lfloor>y\<rfloor> - 1"
    by (metis ceiling_altdef ceiling_def diff_minus_eq_add minus_diff_eq minus_minus uminus_add_conv_diff add.commute)
  have "0 \<le> y - of_int \<lfloor>y\<rfloor>" "y - of_int \<lfloor>y\<rfloor> < 1" by linarith+
  with False c show ?thesis
    by (auto simp add: rne_def Let_def)
qed

lemma floor_log2_eq:
  assumes "0 < a" "power_int 2 k \<le> a" "a < power_int 2 (k + 1)"
  shows "\<lfloor>log 2 a\<rfloor> = k"
proof -
  have "2 powr (of_int k) = power_int (2::real) k"
    "2 powr (of_int k + 1) = power_int (2::real) (k + 1)"
    using powr_real_of_int' [of 2 k] powr_real_of_int' [of 2 "k + 1"] by simp_all
  with assms show ?thesis
    by (simp add: floor_log_eq_powr_iff)
qed

lemma floor_log2_bounds:
  assumes "0 < a"
  shows "power_int 2 \<lfloor>log 2 a\<rfloor> \<le> a" "a < power_int 2 (\<lfloor>log 2 a\<rfloor> + 1)"
proof -
  have "2 powr (of_int \<lfloor>log 2 a\<rfloor>) \<le> a \<and> a < 2 powr (of_int \<lfloor>log 2 a\<rfloor> + 1)"
    using floor_log_eq_powr_iff [of a 2 "\<lfloor>log 2 a\<rfloor>"] assms by simp
  moreover have "2 powr (of_int \<lfloor>log 2 a\<rfloor>) = power_int (2::real) \<lfloor>log 2 a\<rfloor>"
    "2 powr (of_int \<lfloor>log 2 a\<rfloor> + 1) = power_int (2::real) (\<lfloor>log 2 a\<rfloor> + 1)"
    using powr_real_of_int' [of 2 "\<lfloor>log 2 a\<rfloor>"] powr_real_of_int' [of 2 "\<lfloor>log 2 a\<rfloor> + 1"]
    by simp_all
  ultimately show "power_int 2 \<lfloor>log 2 a\<rfloor> \<le> a" "a < power_int 2 (\<lfloor>log 2 a\<rfloor> + 1)"
    by simp_all
qed

lemma exponent_cases:
  assumes "x \<noteq> 0"
  shows "- 1022 \<le> exponent x" "\<bar>x\<bar> < power_int 2 (exponent x + 1)"
    "power_int 2 (exponent x) \<le> \<bar>x\<bar> \<or> exponent x = - 1022"
proof -
  define L where "L = \<lfloor>log 2 \<bar>x\<bar>\<rfloor>"
  have a: "0 < \<bar>x\<bar>" using assms by simp
  note b = floor_log2_bounds [OF a, folded L_def]
  show "- 1022 \<le> exponent x" by (simp add: exponent_def)
  show "\<bar>x\<bar> < power_int 2 (exponent x + 1)"
  proof (cases "- 1022 \<le> L")
    case True
    then have "exponent x = L" by (simp add: exponent_def L_def)
    with b(2) show ?thesis by simp
  next
    case False
    then have e: "exponent x = - 1022" by (simp add: exponent_def L_def)
    have "power_int (2::real) (L + 1) \<le> power_int 2 (- 1022 + 1)"
      using False by (intro power_int_increasing) simp_all
    with b(2) e show ?thesis by simp
  qed
  show "power_int 2 (exponent x) \<le> \<bar>x\<bar> \<or> exponent x = - 1022"
  proof (cases "- 1022 \<le> L")
    case True
    then have "exponent x = L" by (simp add: exponent_def L_def)
    with b(1) show ?thesis by simp
  next
    case False
    then show ?thesis by (simp add: exponent_def L_def)
  qed
qed

lemma exponent_eq:
  assumes "x \<noteq> 0" "- 1022 \<le> k" "\<bar>x\<bar> < power_int 2 (k + 1)"
    and "power_int 2 k \<le> \<bar>x\<bar> \<or> k = - 1022"
  shows "exponent x = k"
proof (cases "power_int 2 k \<le> \<bar>x\<bar>")
  case True
  have "\<lfloor>log 2 \<bar>x\<bar>\<rfloor> = k"
    using assms(1,3) True by (intro floor_log2_eq) simp_all
  with assms(2) show ?thesis by (simp add: exponent_def)
next
  case False
  with assms(4) have k: "k = - 1022" by simp
  define L where "L = \<lfloor>log 2 \<bar>x\<bar>\<rfloor>"
  have a: "0 < \<bar>x\<bar>" using assms(1) by simp
  have "power_int (2::real) L < power_int 2 k"
    using floor_log2_bounds(1) [OF a, folded L_def] False by simp
  have "L < k"
  proof (rule ccontr)
    assume "\<not> L < k"
    then have "power_int (2::real) k \<le> power_int 2 L"
      by (intro power_int_increasing) simp_all
    with \<open>power_int (2::real) L < power_int 2 k\<close> show False by simp
  qed
  then show ?thesis by (simp add: exponent_def L_def [symmetric] k)
qed

lemma exponent_minus [simp]: "exponent (- x) = exponent x"
  by (simp add: exponent_def)

lemma fl64_zero [simp]: "fl64 0 = 0"
  by (simp add: fl64_def)

lemma fl64_minus: "fl64 (- x) = - fl64 x"
  by (simp add: fl64_def Let_def rne_minus)

lemma fl64_eval:
  assumes "x \<noteq> 0" "- 1022 \<le> k" "\<bar>x\<bar> < power_int 2 (k + 1)"
    and "power_int 2 k \<le> \<bar>x\<bar> \<or> k = - 1022"
  shows "fl64 x = of_int (rne (x / power_int 2 (k - 52))) * power_int 2 (k - 52)"
  using assms(1) exponent_eq [OF assms] by (simp add: fl64_def Let_def)

lemma two_powi_split:
  "power_int (2::real) k = power_int 2 (k - 52) * 2 ^ 52"
  "power_int (2::real) (k + 1) = power_int 2 (k - 52) * 2 ^ 53"
  "power_int (2::real) (k - 52) = power_int 2 (k - 53) * 2"
proof -
  have "power_int (2::real) k = power_int 2 ((k - 52) + 52)" by simp
  also have "\<dots> = power_int 2 (k - 52) * power_int 2 52"
    by (subst power_int_add) simp_all
  finally show "power_int (2::real) k = power_int 2 (k - 52) * 2 ^ 52" by simp
  have "power_int (2::real) (k + 1) = power_int 2 ((k - 52) + 53)"
    by (simp add: algebra_simps)
  also have "\<dots> = power_int 2 (k - 52) * power_int 2 53"
    by (subst power_int_add) simp_all
  finally show "power_int (2::real) (k + 1) = power_int 2 (k - 52) * 2 ^ 53" by simp
  have "power_int (2::real) (k - 52) = power_int 2 ((k - 53) + 1)" by simp
  also have "\<dots> = power_int 2 (k - 53) * power_int 2 1"
    by (subst power_int_add) simp_all
  finally show "power_int (2::real) (k - 52) = power_int 2 (k - 53) * 2" by simp
qed

lemma fl64_error: "\<bar>fl64 x - x\<bar> \<le> \<bar>x\<bar> / 2 ^ 53 + 1 / 2 ^ 1075"
proof (cases "x = 0")
  case True
  then show ?thesis by simp
next
  case False
  define e where "e = exponent x"
  define u :: real where "u = power_int 2 (e - 52)"
  have u: "0 < u" by (simp add: u_def)
  have f: "fl64 x = of_int (rne (x / u)) * u"
    using False by (simp add: fl64_def Let_def u_def e_def)
  have "fl64 x - x = (of_int (rne (x / u)) - x / u) * u"
    using u by (simp add: f field_simps)
  then have "\<bar>fl64 x - x\<bar> = \<bar>of_int (rne (x / u)) - x / u\<bar> * u"
    using u by (simp add: abs_mult)
  also have "\<dots> \<le> (1 / 2) * u"
    using rne_error [of "x / u"] u by (intro mult_right_mono) simp_all
  finally have h: "\<bar>fl64 x - x\<bar> \<le> u / 2" by simp
  from exponent_cases(3) [OF False, folded e_def]
  show ?thesis
  proof
    assume "power_int 2 e \<le> \<bar>x\<bar>"
    then have "u * 2 ^ 52 \<le> \<bar>x\<bar>" by (simp add: two_powi_split(1) [of e] u_def)
    then have "u / 2 \<le> \<bar>x\<bar> / 2 ^ 53" by (simp add: field_simps)
    with h have "\<bar>fl64 x - x\<bar> \<le> \<bar>x\<bar> / 2 ^ 53" by (rule order_trans)
    also have "\<dots> \<le> \<bar>x\<bar> / 2 ^ 53 + 1 / 2 ^ 1075" by simp
    finally show ?thesis .
  next
    assume "e = - 1022"
    then have "u = 1 / 2 ^ 1074" by (simp add: u_def power_int_minus inverse_eq_divide)
    then have "u / 2 = 1 / 2 ^ 1075" by simp
    with h have "\<bar>fl64 x - x\<bar> \<le> 1 / 2 ^ 1075" by simp
    also have "\<dots> \<le> \<bar>x\<bar> / 2 ^ 53 + 1 / 2 ^ 1075" by simp
    finally show ?thesis .
  qed
qed

lemma fl64_pos_bounds:
  assumes "0 < x"
  shows "0 \<le> fl64 x" "fl64 x \<le> power_int 2 (exponent x + 1)"
    "power_int 2 (exponent x) \<le> x \<Longrightarrow> power_int 2 (exponent x) \<le> fl64 x"
proof -
  define e where "e = exponent x"
  define u :: real where "u = power_int 2 (e - 52)"
  have u: "0 < u" by (simp add: u_def)
  have f: "fl64 x = of_int (rne (x / u)) * u"
    using assms by (simp add: fl64_def Let_def u_def e_def)
  have "rne 0 \<le> rne (x / u)" using assms u by (intro rne_mono) simp
  then have "0 \<le> rne (x / u)" using rne_of_int [of 0] by simp
  then show "0 \<le> fl64 x" using u by (simp add: f)
  have "\<bar>x\<bar> < power_int 2 (e + 1)"
    using exponent_cases(2) [of x] assms by (simp add: e_def)
  then have "x < u * 2 ^ 53"
    using assms unfolding two_powi_split(2) [of e] u_def by simp
  then have "x / u \<le> of_int (2 ^ 53)" using u by (simp add: field_simps)
  then have "rne (x / u) \<le> rne (of_int (2 ^ 53))" by (rule rne_mono)
  then have "rne (x / u) \<le> 2 ^ 53" by (simp only: rne_of_int)
  then have "(of_int (rne (x / u)) :: real) \<le> 2 ^ 53"
    by (metis of_int_le_iff of_int_numeral of_int_power)
  then have "fl64 x \<le> 2 ^ 53 * u" unfolding f using u by (intro mult_right_mono) simp_all
  then show "fl64 x \<le> power_int 2 (exponent x + 1)"
    unfolding e_def [symmetric] two_powi_split(2) [of e] u_def by (simp add: mult.commute)
  assume "power_int 2 (exponent x) \<le> x"
  then have "u * 2 ^ 52 \<le> x"
    unfolding e_def [symmetric] two_powi_split(1) [of e] u_def by simp
  then have "of_int (2 ^ 52) \<le> x / u" using u by (simp add: field_simps)
  then have "rne (of_int (2 ^ 52)) \<le> rne (x / u)" by (rule rne_mono)
  then have "2 ^ 52 \<le> rne (x / u)" by (simp only: rne_of_int)
  then have "(2 ^ 52 :: real) \<le> of_int (rne (x / u))"
    by (metis of_int_le_iff of_int_numeral of_int_power)
  then have "2 ^ 52 * u \<le> fl64 x" unfolding f using u by (intro mult_right_mono) simp_all
  then show "power_int 2 (exponent x) \<le> fl64 x"
    unfolding e_def [symmetric] two_powi_split(1) [of e] u_def by (simp add: mult.commute)
qed

lemma exponent_mono:
  assumes "0 < x" "x \<le> y"
  shows "exponent x \<le> exponent y"
proof -
  have "log 2 x \<le> log 2 y" using assms by simp
  then have "\<lfloor>log 2 x\<rfloor> \<le> \<lfloor>log 2 y\<rfloor>" by (rule floor_mono)
  with assms show ?thesis by (simp add: exponent_def)
qed

lemma fl64_mono_pos:
  assumes "0 < x" "x \<le> y"
  shows "fl64 x \<le> fl64 y"
proof (cases "exponent x = exponent y")
  case True
  define u :: real where "u = power_int 2 (exponent y - 52)"
  have u: "0 < u" by (simp add: u_def)
  have "x / u \<le> y / u" using assms(2) u by (simp add: divide_right_mono)
  then have "rne (x / u) \<le> rne (y / u)" by (rule rne_mono)
  then have "of_int (rne (x / u)) * u \<le> of_int (rne (y / u)) * u"
    using u by (intro mult_right_mono) simp_all
  with assms True show ?thesis by (simp add: fl64_def Let_def u_def)
next
  case False
  with exponent_mono [OF assms] have lt: "exponent x + 1 \<le> exponent y" by simp
  have y: "0 < y" using assms by simp
  have "exponent y \<noteq> - 1022" using lt exponent_cases(1) [of x] assms(1) by simp
  with exponent_cases(3) [of y] y have "power_int 2 (exponent y) \<le> y" by simp
  from fl64_pos_bounds(3) [OF y this]
  have "power_int 2 (exponent y) \<le> fl64 y" .
  moreover have "power_int (2::real) (exponent x + 1) \<le> power_int 2 (exponent y)"
    using lt by (intro power_int_increasing) simp_all
  moreover note fl64_pos_bounds(2) [OF assms(1)]
  ultimately show ?thesis by linarith
qed

lemma fl64_mono:
  assumes "x \<le> y"
  shows "fl64 x \<le> fl64 y"
proof -
  consider "0 < x" | "x \<le> 0" "0 \<le> y" | "y < 0" using assms by linarith
  then show ?thesis
  proof cases
    case 1
    then show ?thesis using assms by (rule fl64_mono_pos)
  next
    case 2
    have "fl64 x \<le> 0"
    proof (cases "x = 0")
      case False
      with 2 have "0 < - x" by simp
      from fl64_pos_bounds(1) [OF this] show ?thesis by (simp add: fl64_minus)
    qed simp
    moreover have "0 \<le> fl64 y"
    proof (cases "y = 0")
      case False
      with 2 have "0 < y" by simp
      then show ?thesis by (rule fl64_pos_bounds(1))
    qed simp
    ultimately show ?thesis by simp
  next
    case 3
    then have "0 < - y" "- y \<le> - x" using assms by simp_all
    from fl64_mono_pos [OF this] show ?thesis by (simp add: fl64_minus)
  qed
qed

lemma fl64_nonneg: "0 \<le> x \<Longrightarrow> 0 \<le> fl64 x"
  using fl64_mono [of 0 x] by simp

lemma fl64_nonpos: "x \<le> 0 \<Longrightarrow> fl64 x \<le> 0"
  using fl64_mono [of x 0] by simp

lemma fl64_idem_pos:
  assumes "0 < x"
  shows "fl64 (fl64 x) = fl64 x"
proof -
  define e where "e = exponent x"
  define u :: real where "u = power_int 2 (e - 52)"
  define k where "k = rne (x / u)"
  define v where "v = fl64 x"
  have u: "0 < u" by (simp add: u_def)
  have v: "v = of_int k * u"
    using assms by (simp add: v_def fl64_def Let_def u_def e_def k_def)
  note b = fl64_pos_bounds [OF assms, folded v_def e_def]
  note c = exponent_cases [of x, folded e_def]
  show ?thesis
  proof (cases "v = 0")
    case True
    then show ?thesis by (simp add: v_def)
  next
    case False
    with b(1) have vpos: "0 < v" by simp
    show ?thesis
    proof (cases "v = power_int 2 (e + 1)")
      case True
      have "exponent v = e + 1"
        using vpos c(1) assms unfolding True
        by (intro exponent_eq) (simp_all add: power_int_strict_increasing)
      then have "fl64 v = of_int (rne (v / power_int 2 (e + 1 - 52))) * power_int 2 (e + 1 - 52)"
        using vpos by (simp add: fl64_def Let_def)
      also have "v / power_int 2 (e + 1 - 52) = of_int (2 ^ 52)"
        unfolding True using two_powi_split(1) [of "e + 1"] by simp
      also have "of_int (rne (of_int (2 ^ 52))) * power_int 2 (e + 1 - 52) = v"
        unfolding True rne_of_int using two_powi_split(1) [of "e + 1"] by simp
      finally show ?thesis by (simp add: v_def)
    next
      case False
      with b(2) have lt: "v < power_int 2 (e + 1)" by simp
      have lo: "power_int 2 e \<le> v \<or> e = - 1022"
        using c(3) b(3) assms by auto
      have "exponent v = e"
        using vpos c(1) assms lt lo by (intro exponent_eq) simp_all
      then have "fl64 v = of_int (rne (v / u)) * u"
        using vpos by (simp add: fl64_def Let_def u_def)
      also have "v / u = of_int k" using u by (simp add: v)
      finally show ?thesis by (simp add: v v_def [symmetric])
    qed
  qed
qed

lemma fl64_idem [simp]: "fl64 (fl64 x) = fl64 x"
proof -
  consider "0 < x" | "x = 0" | "0 < - x" by linarith
  then show ?thesis
  proof cases
    case 3
    from fl64_idem_pos [OF this] show ?thesis by (simp add: fl64_minus)
  qed (simp_all add: fl64_idem_pos)
qed

text \<open>
  Numbers with a significand of at most 53 bits and an exponent in the range of the
  doubles are doubles: rounding leaves them as they are.
\<close>

lemma rne_eval:
  assumes "of_int k - 1 / 2 < y" "y < of_int k + 1 / 2"
  shows "rne y = k"
proof -
  have "\<lfloor>y\<rfloor> = k \<or> \<lfloor>y\<rfloor> = k - 1" using assms by linarith
  then show ?thesis using assms by (auto simp add: rne_def Let_def)
qed

lemma rne_tie: "rne (of_int k + 1 / 2) = (if even k then k else k + 1)"
proof -
  have "\<lfloor>of_int k + 1 / 2 :: real\<rfloor> = k" by linarith
  then show ?thesis by (simp add: rne_def Let_def)
qed

lemma fl64_dyadic:
  assumes "\<bar>n\<bar> < 2 ^ 53" "- 1074 \<le> j"
  shows "fl64 (of_int n * power_int 2 j) = of_int n * power_int 2 j"
proof (cases "n = 0")
  case True
  then show ?thesis by simp
next
  case False
  define x :: real where "x = of_int n * power_int 2 j"
  define e where "e = exponent x"
  define u :: real where "u = power_int 2 (e - 52)"
  have x: "x \<noteq> 0" using False by (simp add: x_def)
  have u: "0 < u" by (simp add: u_def)
  have "(of_int \<bar>n\<bar> :: real) < of_int (2 ^ 53)" using assms(1) by (simp only: of_int_less_iff)
  then have n: "\<bar>of_int n :: real\<bar> < 2 ^ 53" by simp
  have "\<bar>x\<bar> = \<bar>of_int n\<bar> * power_int 2 j" by (simp add: x_def abs_mult)
  also have "\<dots> < 2 ^ 53 * power_int 2 j"
    using n by (intro mult_strict_right_mono) simp_all
  also have "\<dots> = power_int 2 (j + 53)"
    by (subst power_int_add) simp_all
  finally have hi: "\<bar>x\<bar> < power_int 2 (j + 53)" .
  have le: "e - 52 \<le> j"
    using exponent_cases(3) [OF x, folded e_def]
  proof
    assume lo: "power_int 2 e \<le> \<bar>x\<bar>"
    have "e < j + 53"
    proof (rule ccontr)
      assume "\<not> e < j + 53"
      then have "power_int (2::real) (j + 53) \<le> power_int 2 e"
        by (intro power_int_increasing) simp_all
      with lo hi show False by simp
    qed
    then show ?thesis by simp
  next
    assume "e = - 1022"
    with assms(2) show ?thesis by simp
  qed
  define d where "d = nat (j - (e - 52))"
  have "power_int (2::real) j = power_int 2 ((e - 52) + int d)"
    using le by (simp add: d_def)
  also have "\<dots> = u * power_int 2 (int d)"
    unfolding u_def by (subst power_int_add) simp_all
  finally have j: "power_int (2::real) j = u * 2 ^ d" by simp
  have q: "x / u = of_int (n * 2 ^ d)"
    using u by (simp add: x_def j)
  have "fl64 x = of_int (rne (x / u)) * u"
    using x by (simp add: fl64_def Let_def u_def e_def)
  also have "\<dots> = of_int (n * 2 ^ d) * u" unfolding q rne_of_int ..
  also have "\<dots> = x" by (simp add: x_def j)
  finally show ?thesis unfolding x_def .
qed

lemma fl64_sqrt_pos:
  assumes "1 / 2 ^ 1074 \<le> eff"
  shows "0 < fl64 (sqrt eff)"
proof -
  have "(1 / 2 ^ 537 :: real)\<^sup>2 \<le> eff"
    using assms by (simp add: power_divide flip: power_mult)
  then have "1 / 2 ^ 537 \<le> sqrt eff" by (rule real_le_rsqrt)
  then have le: "fl64 (1 / 2 ^ 537) \<le> fl64 (sqrt eff)" by (rule fl64_mono)
  have "fl64 (1 / 2 ^ 537) = 1 / 2 ^ 537"
    using fl64_dyadic [of 1 "- 537"] by (simp add: power_int_minus inverse_eq_divide)
  then have "0 < fl64 (1 / 2 ^ 537)" by simp
  then show ?thesis using le by (rule less_le_trans)
qed

lemma fl64_of_int:
  assumes "\<bar>n\<bar> < 2 ^ 53"
  shows "fl64 (of_int n) = of_int n"
  using fl64_dyadic [OF assms, of 0] by simp

lemma fl64_numeral [simp]:
  "numeral n < (2 ^ 53 :: int) \<Longrightarrow> fl64 (numeral n) = numeral n"
  using fl64_of_int [of "numeral n"] by simp

lemma fl64_one [simp]: "fl64 1 = 1"
  using fl64_of_int [of 1] by simp

section \<open>Properties of the battery in double precision\<close>

text \<open>
  Every rounding met while the stored energy is within the tolerance of the bounds has an
  error of at most \<open>D = (1 + 3 / 2 ^ 53) \<times> (capacity / 2 ^ 53 + 1 / 2 ^ 1075)\<close>, and two
  such errors fit in the tolerance.
\<close>

lemma fl64_near:
  assumes "0 \<le> c" and "\<bar>x\<bar> \<le> c + double_tolerance c"
  shows "\<bar>fl64 x - x\<bar> \<le> (1 + 3 / 2 ^ 53) * (c / 2 ^ 53 + 1 / 2 ^ 1075)"
proof -
  define K :: real where "K = c / 2 ^ 53 + 1 / 2 ^ 1075"
  have T: "double_tolerance c = 3 * K" by (simp add: double_tolerance_def K_def)
  have "\<bar>fl64 x - x\<bar> \<le> \<bar>x\<bar> / 2 ^ 53 + 1 / 2 ^ 1075" by (rule fl64_error)
  also have "\<dots> \<le> (c + 3 * K) / 2 ^ 53 + 1 / 2 ^ 1075"
    using assms(2) unfolding T by (simp add: divide_right_mono)
  also have "\<dots> = (1 + 3 / 2 ^ 53) * K" by (simp add: K_def field_simps)
  finally show ?thesis unfolding K_def .
qed

lemma tolerance_facts:
  assumes "0 \<le> c"
  defines "D \<equiv> (1 + 3 / 2 ^ 53) * (c / 2 ^ 53 + 1 / 2 ^ 1075)"
  shows "0 < D" "2 * D \<le> double_tolerance c" "0 < double_tolerance c"
proof -
  define K :: real where "K = c / 2 ^ 53 + 1 / 2 ^ 1075"
  have K: "0 < K" using assms(1) by (simp add: K_def add_nonneg_pos)
  define q where "q = (3 / 2 ^ 53) * K"
  have D: "D = K + q" by (simp add: D_def K_def q_def algebra_simps)
  have T: "double_tolerance c = 3 * K" by (simp add: double_tolerance_def K_def)
  have "q \<le> (1 / 2) * K"
    unfolding q_def using K by (intro mult_right_mono) simp_all
  moreover have "0 \<le> q" unfolding q_def using K by simp
  ultimately have small: "2 * q \<le> K" "0 \<le> q" by simp_all
  show "0 < D" using K small unfolding D by simp
  show "2 * D \<le> double_tolerance c" unfolding D T using small by simp
  show "0 < double_tolerance c" unfolding T using K by simp
qed

lemma charge_double_invariant:
  assumes "double_invariant b" and "0 \<le> E"
  shows "\<exists>r b'. charge_double b E = Inr (r, b') \<and> double_invariant b' \<and>
           capacity_kwh b' = capacity_kwh b \<and> min_energy_kwh b' = min_energy_kwh b"
proof -
  define w where "w = one_way_efficiency b"
  define c where "c = capacity_kwh b"
  define m where "m = min_energy_kwh b"
  define e where "e = energy_kwh b"
  define T where "T = double_tolerance c"
  define D :: real where "D = (1 + 3 / 2 ^ 53) * (c / 2 ^ 53 + 1 / 2 ^ 1075)"
  have inv: "0 < w" "0 \<le> m" "m \<le> c" "fl64 e = e" "m - T \<le> e" "e \<le> c + T"
    using assms(1) by (simp_all add: double_invariant_def w_def c_def m_def e_def T_def)
  have c: "0 \<le> c" using inv by simp
  note tf = tolerance_facts [OF c, folded D_def T_def]
  have near: "\<bar>fl64 x - x\<bar> \<le> D" if "\<bar>x\<bar> \<le> c + T" for x
    using fl64_near [OF c, of x] that by (simp add: D_def T_def)
  define u where "u = fl64 (E * w)"
  define sp where "sp = fl64 (c - e)"
  define s where "s = min u sp"
  define e' where "e' = fl64 (e + s)"
  have u: "0 \<le> u" unfolding u_def using assms(2) inv(1) by (intro fl64_nonneg) simp
  have sp: "\<bar>sp - (c - e)\<bar> \<le> D"
    unfolding sp_def using inv tf by (intro near) linarith
  have up: "e + s \<le> c + D" using sp by (simp add: s_def min_def) linarith
  have hi: "e' \<le> c + T"
  proof -
    have "e' \<le> fl64 (c + D)" unfolding e'_def using up by (rule fl64_mono)
    moreover have "\<bar>fl64 (c + D) - (c + D)\<bar> \<le> D"
      using c tf by (intro near) linarith
    ultimately show ?thesis using tf by linarith
  qed
  have lo: "m - T \<le> e'"
  proof (cases "e \<le> c")
    case True
    then have "0 \<le> sp" unfolding sp_def by (intro fl64_nonneg) simp
    with u have "e \<le> e + s" by (simp add: s_def)
    then have "fl64 e \<le> e'" unfolding e'_def by (rule fl64_mono)
    with inv show ?thesis by simp
  next
    case False
    then have "sp \<le> 0" unfolding sp_def by (intro fl64_nonpos) simp
    with u have "s = sp" by (simp add: s_def)
    with sp have "c - D \<le> e + s" by linarith
    then have "fl64 (c - D) \<le> e'" unfolding e'_def by (rule fl64_mono)
    moreover have "\<bar>fl64 (c - D) - (c - D)\<bar> \<le> D"
      using c tf by (intro near) linarith
    ultimately show ?thesis using tf inv by linarith
  qed
  have "charge_double b E = Inr (fl64 (s / w), b\<lparr>energy_kwh := e'\<rparr>)"
    using inv(1)
    by (simp add: charge_double_def Let_def w_def c_def e_def u_def sp_def s_def e'_def)
  moreover have "double_invariant (b\<lparr>energy_kwh := e'\<rparr>)"
    using inv hi lo
    by (simp add: double_invariant_def w_def c_def m_def T_def e'_def)
  ultimately show ?thesis by simp
qed

lemma discharge_double_invariant:
  assumes "double_invariant b" and "0 \<le> E"
  shows "\<exists>r b'. discharge_double b E = Inr (r, b') \<and> double_invariant b' \<and>
           capacity_kwh b' = capacity_kwh b \<and> min_energy_kwh b' = min_energy_kwh b"
proof -
  define w where "w = one_way_efficiency b"
  define c where "c = capacity_kwh b"
  define m where "m = min_energy_kwh b"
  define e where "e = energy_kwh b"
  define T where "T = double_tolerance c"
  define D :: real where "D = (1 + 3 / 2 ^ 53) * (c / 2 ^ 53 + 1 / 2 ^ 1075)"
  have inv: "0 < w" "0 \<le> m" "m \<le> c" "fl64 e = e" "m - T \<le> e" "e \<le> c + T"
    using assms(1) by (simp_all add: double_invariant_def w_def c_def m_def e_def T_def)
  have c: "0 \<le> c" using inv by simp
  note tf = tolerance_facts [OF c, folded D_def T_def]
  have near: "\<bar>fl64 x - x\<bar> \<le> D" if "\<bar>x\<bar> \<le> c + T" for x
    using fl64_near [OF c, of x] that by (simp add: D_def T_def)
  define r where "r = fl64 (E / w)"
  define av where "av = fl64 (e - m)"
  define ex where "ex = min r av"
  define e' where "e' = fl64 (e - ex)"
  have r: "0 \<le> r" unfolding r_def using assms(2) inv(1) by (intro fl64_nonneg) simp
  have av: "\<bar>av - (e - m)\<bar> \<le> D"
    unfolding av_def using inv tf by (intro near) linarith
  have md: "\<bar>fl64 (m - D) - (m - D)\<bar> \<le> D"
    using inv c tf by (intro near) linarith
  have lo: "m - T \<le> e'"
  proof -
    have "m - D \<le> e - ex" using av by (simp add: ex_def min_def) linarith
    then have "fl64 (m - D) \<le> e'" unfolding e'_def by (rule fl64_mono)
    with md tf show ?thesis by linarith
  qed
  have hi: "e' \<le> c + T"
  proof (cases "m \<le> e")
    case True
    then have "0 \<le> av" unfolding av_def by (intro fl64_nonneg) simp
    with r have "e - ex \<le> e" by (simp add: ex_def)
    then have "e' \<le> fl64 e" unfolding e'_def by (rule fl64_mono)
    with inv show ?thesis by simp
  next
    case False
    then have "av \<le> 0" unfolding av_def by (intro fl64_nonpos) simp
    with r have "ex = av" by (simp add: ex_def)
    with av have "e - ex \<le> m + D" by linarith
    then have "e' \<le> fl64 (m + D)" unfolding e'_def by (rule fl64_mono)
    moreover have "\<bar>fl64 (m + D) - (m + D)\<bar> \<le> D"
      using inv c tf by (intro near) linarith
    ultimately show ?thesis using tf inv by linarith
  qed
  have "discharge_double b E = Inr (fl64 (ex * w), b\<lparr>energy_kwh := e'\<rparr>)"
    using inv(1)
    by (simp add: discharge_double_def Let_def w_def m_def e_def r_def av_def ex_def e'_def)
  moreover have "double_invariant (b\<lparr>energy_kwh := e'\<rparr>)"
    using inv hi lo
    by (simp add: double_invariant_def w_def c_def m_def T_def e'_def)
  ultimately show ?thesis by simp
qed

lemma do_calls_double_invariant:
  assumes "double_invariant b" and "\<forall>c \<in> set cs. 0 \<le> call_arg c"
  shows "\<exists>b'. do_calls_double b cs = Inr b' \<and> double_invariant b' \<and>
           capacity_kwh b' = capacity_kwh b \<and> min_energy_kwh b' = min_energy_kwh b"
  using assms
proof (induction cs arbitrary: b)
  case Nil
  then show ?case by simp
next
  case (Cons a cs)
  have arg: "0 \<le> call_arg a" and rest: "\<forall>c \<in> set cs. 0 \<le> call_arg c"
    using Cons.prems(2) by simp_all
  have "\<exists>r b1. do_call_double b a = Inr (r, b1) \<and> double_invariant b1 \<and>
          capacity_kwh b1 = capacity_kwh b \<and> min_energy_kwh b1 = min_energy_kwh b"
  proof (cases a)
    case (Charge E)
    with charge_double_invariant [OF Cons.prems(1), of E] arg show ?thesis by simp
  next
    case (Discharge E)
    with discharge_double_invariant [OF Cons.prems(1), of E] arg show ?thesis by simp
  qed
  then obtain r b1 where step: "do_call_double b a = Inr (r, b1)"
    and b1: "double_invariant b1" "capacity_kwh b1 = capacity_kwh b"
      "min_energy_kwh b1 = min_energy_kwh b"
    by blast
  from Cons.IH [OF b1(1) rest] step b1 show ?case by auto
qed

lemma Battery_init_double_invariant:
  assumes "0 < capacity" "fl64 capacity = capacity" "1 / 2 ^ 1074 \<le> eff"
    and "0 \<le> msoc" "msoc \<le> 1 / 2"
  shows "\<exists>b0. Battery_init_double capacity eff msoc = Inr b0 \<and> double_invariant b0 \<and>
           capacity_kwh b0 = capacity \<and> min_energy_kwh b0 = fl64 (capacity * msoc)"
proof -
  have "(0::real) < 1 / 2 ^ 1074" by simp
  then have eff: "0 < eff" using assms(3) by (rule less_le_trans)
  have c: "0 \<le> capacity" using assms(1) by simp
  note tf = tolerance_facts [OF c]
  have w: "0 < fl64 (sqrt eff)" using assms(3) by (rule fl64_sqrt_pos)
  have m0: "0 \<le> fl64 (capacity * msoc)" using assms(1,4) by (intro fl64_nonneg) simp
  have "capacity * msoc \<le> capacity * (1 / 2)"
    using assms(1,5) by (intro mult_left_mono) simp_all
  then have me: "fl64 (capacity * msoc) \<le> fl64 (capacity * (1 / 2))" by (rule fl64_mono)
  have "capacity * (1 / 2) \<le> capacity" using assms(1) by simp
  then have "fl64 (capacity * (1 / 2)) \<le> fl64 capacity" by (rule fl64_mono)
  then have ec: "fl64 (capacity * (1 / 2)) \<le> capacity" using assms(2) by simp
  show ?thesis
    using eff w m0 me ec tf(3)
    by (simp add: Battery_init_double_def double_invariant_def)
qed

text \<open>
  The roundings of the run \<open>Battery(7.3, 1, 0)\<close>, \<open>discharge(0.5)\<close>, \<open>charge(100)\<close>. The
  literal \<open>7.3\<close> is read as the double \<open>8219069319951155 / 2 ^ 50\<close>; the space available
  and the new stored energy are both ties, and both go up to the even significand.
\<close>

lemma double_literal:
  assumes "x = 73 / 10"
  shows "fl64 x = 8219069319951155 / 2 ^ 50"
proof -
  have "rne (73 / 10 / power_int 2 (2 - 52)) = 8219069319951155"
    by (rule rne_eval) simp_all
  then show ?thesis
    unfolding assms using fl64_eval [of "73 / 10" 2] by simp
qed

lemma double_exact:
  "x = 1 / 2 \<Longrightarrow> fl64 x = x"
  "x = 8219069319951155 / 2 ^ 51 \<Longrightarrow> fl64 x = x"
  "x = 7093169413108531 / 2 ^ 51 \<Longrightarrow> fl64 x = x"
  "x = 4672484613396890 / 2 ^ 50 \<Longrightarrow> fl64 x = x"
proof -
  show "fl64 x = x" if "x = 1 / 2"
    unfolding that using fl64_dyadic [of 1 "- 1"] by simp
  show "fl64 x = x" if "x = 8219069319951155 / 2 ^ 51"
    unfolding that using fl64_dyadic [of 8219069319951155 "- 51"] by simp
  show "fl64 x = x" if "x = 7093169413108531 / 2 ^ 51"
    unfolding that using fl64_dyadic [of 7093169413108531 "- 51"] by simp
  show "fl64 x = x" if "x = 4672484613396890 / 2 ^ 50"
    unfolding that using fl64_dyadic [of 4672484613396890 "- 50"] by simp
qed

lemma double_tie_space:
  assumes "x = 9344969226793779 / 2 ^ 51"
  shows "fl64 x = 4672484613396890 / 2 ^ 50"
proof -
  have "rne (9344969226793779 / 2 ^ 51 / power_int 2 (2 - 52)) = 4672484613396890"
    using rne_tie [of 4672484613396889] by simp
  then show ?thesis
    unfolding assms using fl64_eval [of "9344969226793779 / 2 ^ 51" 2] by simp
qed

lemma double_tie_store:
  assumes "x = 16438138639902311 / 2 ^ 51"
  shows "fl64 x = 8219069319951156 / 2 ^ 50"
proof -
  have "rne (16438138639902311 / 2 ^ 51 / power_int 2 (2 - 52)) = 8219069319951156"
    using rne_tie [of 8219069319951155] by simp
  then show ?thesis
    unfolding assms using fl64_eval [of "16438138639902311 / 2 ^ 51" 2] by simp
qed

text \<open>
  C2, as stated, fails on the code, which computes in doubles. For
  \<open>Battery(7.3, 1, 0)\<close> the calls \<open>discharge(0.5)\<close> and \<open>charge(100)\<close>, both with
  non-negative arguments, run without error and leave \<open>8219069319951156 / 2 ^ 50\<close> kWh
  stored, one unit in the last place above the capacity \<open>8219069319951155 / 2 ^ 50\<close>
  (Python prints \<open>7.300000000000001\<close> and \<open>7.3\<close>): the space available,
  \<open>capacity - stored\<close>, is rounded up, and so is the sum that stores it.
\<close>

theorem battery_invariant_counterexample:
  "\<exists>b0 b. Battery_init_double (fl64 (73 / 10)) 1 0 = Inr b0 \<and>
      do_calls_double b0 [Discharge (1 / 2), Charge 100] = Inr b \<and>
      capacity_kwh b = 8219069319951155 / 2 ^ 50 \<and>
      energy_kwh b = 8219069319951156 / 2 ^ 50 \<and>
      capacity_kwh b < energy_kwh b"
  by (simp add: Battery_init_double_def discharge_double_def charge_double_def Let_def
      double_literal double_exact double_tie_space double_tie_store)

text \<open>
  C2, amended: the bounds hold up to rounding. A battery created with a capacity that is a
  positive double, an efficiency in \<open>(0, 1]\<close> (a positive double is at least
  \<open>1 / 2 ^ 1074\<close>) and a minimum state of charge in \<open>[0, 0.5]\<close> is created without error;
  every finite sequence of \<open>charge\<close> and \<open>discharge\<close> calls with non-negative arguments
  runs without error and ends with
  \<open>min_energy_kwh - tolerance \<le> energy_kwh \<le> capacity_kwh + tolerance\<close>, where the
  tolerance is \<open>3 \<times> (capacity / 2 ^ 53 + 1 / 2 ^ 1075)\<close>; the two bounds themselves are
  never modified. Every prefix of a sequence is a sequence, so this holds after each call.
  The capacity and the arguments are taken to be at most \<open>2 ^ 400\<close>, which keeps every
  intermediate result, \<open>energy / one_way_efficiency\<close> included, in the range of the finite
  doubles.
\<close>

theorem battery_invariant_double:
  assumes "0 < capacity" "capacity \<le> 2 ^ 400" "fl64 capacity = capacity"
    and "1 / 2 ^ 1074 \<le> eff" "eff \<le> 1" "0 \<le> msoc" "msoc \<le> 1 / 2"
    and "\<forall>c \<in> set cs. 0 \<le> call_arg c \<and> call_arg c \<le> 2 ^ 400"
  shows "\<exists>b0 b. Battery_init_double capacity eff msoc = Inr b0 \<and>
           do_calls_double b0 cs = Inr b \<and>
           min_energy_kwh b - double_tolerance capacity \<le> energy_kwh b \<and>
           energy_kwh b \<le> capacity_kwh b + double_tolerance capacity \<and>
           min_energy_kwh b = min_energy_kwh b0 \<and> capacity_kwh b = capacity"
proof -
  from Battery_init_double_invariant [OF assms(1,3,4,6,7)]
  obtain b0 where b0: "Battery_init_double capacity eff msoc = Inr b0" "double_invariant b0"
    "capacity_kwh b0 = capacity"
    by blast
  have args: "\<forall>c \<in> set cs. 0 \<le> call_arg c" using assms(8) by simp
  from do_calls_double_invariant [OF b0(2) args]
  obtain b where b: "do_calls_double b0 cs = Inr b" "double_invariant b"
    "capacity_kwh b = capacity_kwh b0" "min_energy_kwh b = min_energy_kwh b0"
    by blast
  from b(2) have "min_energy_kwh b - double_tolerance (capacity_kwh b) \<le> energy_kwh b"
    "energy_kwh b \<le> capacity_kwh b + double_tolerance (capacity_kwh b)"
    by (simp_all add: double_invariant_def)
  with b0 b show ?thesis by simp
qed

theorem battery_invariant_double_witness:
  "\<exists>b0 b. Battery_init_double 10 1 (1 / 20) = Inr b0 \<and>
      do_calls_double b0 [Charge 3, Discharge 20, Charge 30] = Inr b \<and>
      min_energy_kwh b - double_tolerance 10 \<le> energy_kwh b \<and>
      energy_kwh b \<le> capacity_kwh b + double_tolerance 10 \<and>
      min_energy_kwh b = min_energy_kwh b0 \<and> capacity_kwh b = 10"
  using battery_invariant_double [of 10 1 "1 / 20" "[Charge 3, Discharge 20, Charge 30]"]
  by simp

text \<open>
  C4, amended: when neither bound binds, that is when \<open>min\<close> selects \<open>usable_energy\<close> in
  \<open>charge\<close> and \<open>required_energy\<close> in \<open>discharge\<close>, \<open>charge(E)\<close> followed by
  \<open>discharge(E)\<close> runs without error and delivers approximately \<open>E\<close>, not
  \<open>E \<times> efficiency\<close>: in doubles the energy delivered is within
  \<open>3 \<times> (E / 2 ^ 53 + 1 / 2 ^ 1075)\<close> of \<open>E\<close>. The losses are taken from the store, which
  \<open>charge\<close> raises by \<open>E \<times> one_way_efficiency\<close> and \<open>discharge\<close> lowers by
  \<open>E / one_way_efficiency\<close>, each rounded. The one-way efficiency is at most one, as it is
  for an efficiency in \<open>(0, 1]\<close>, and the capacity, the stored energy and the floor are at
  most \<open>2 ^ 1000\<close> in magnitude, which keeps every intermediate result in the range of
  the finite doubles.
\<close>

theorem round_trip_double:
  assumes "0 < one_way_efficiency b" "one_way_efficiency b \<le> 1" "0 \<le> E"
    and "\<bar>capacity_kwh b\<bar> \<le> 2 ^ 1000" "\<bar>energy_kwh b\<bar> \<le> 2 ^ 1000"
      "\<bar>min_energy_kwh b\<bar> \<le> 2 ^ 1000"
    and "fl64 (E * one_way_efficiency b) \<le> fl64 (capacity_kwh b - energy_kwh b)"
    and "fl64 (E / one_way_efficiency b)
           \<le> fl64 (fl64 (energy_kwh b + fl64 (E * one_way_efficiency b)) - min_energy_kwh b)"
  shows "\<exists>consumed b1 delivered b2.
           charge_double b E = Inr (consumed, b1) \<and>
           discharge_double b1 E = Inr (delivered, b2) \<and>
           energy_kwh b1 = fl64 (energy_kwh b + fl64 (E * one_way_efficiency b)) \<and>
           energy_kwh b2 = fl64 (energy_kwh b1 - fl64 (E / one_way_efficiency b)) \<and>
           \<bar>delivered - E\<bar> \<le> double_tolerance E"
proof -
  define w where "w = one_way_efficiency b"
  define x where "x = fl64 (E / w)"
  define b1 where "b1 = b\<lparr>energy_kwh := fl64 (energy_kwh b + fl64 (E * w))\<rparr>"
  define b2 where "b2 = b1\<lparr>energy_kwh := fl64 (energy_kwh b1 - x)\<rparr>"
  have w: "0 < w" "w \<le> 1" using assms(1,2) by (simp_all add: w_def)
  have c: "charge_double b E = Inr (fl64 (fl64 (E * w) / w), b1)"
    using w(1) assms(7) by (simp add: charge_double_def Let_def w_def b1_def min_def)
  have d: "discharge_double b1 E = Inr (fl64 (x * w), b2)"
    using w(1) assms(8)
    by (simp add: discharge_double_def Let_def w_def b1_def b2_def x_def min_def)
  define u :: real where "u = 1 / 2 ^ 53"
  define h :: real where "h = 1 / 2 ^ 1075"
  have u: "0 < u" "u \<le> 1" and h: "0 < h" by (simp_all add: u_def h_def)
  have q: "0 \<le> E / w" using assms(3) w(1) by simp
  have "\<bar>x - E / w\<bar> \<le> \<bar>E / w\<bar> / 2 ^ 53 + 1 / 2 ^ 1075"
    unfolding x_def by (rule fl64_error)
  then have e1: "\<bar>x - E / w\<bar> \<le> (E / w) * u + h" using q by (simp add: u_def h_def)
  have "\<bar>x * w - E\<bar> = \<bar>x - E / w\<bar> * w"
  proof -
    have "x * w - E = (x - E / w) * w" using w(1) by (simp add: field_simps)
    then show ?thesis using w(1) by (simp add: abs_mult)
  qed
  also have "\<dots> \<le> ((E / w) * u + h) * w"
    using e1 w(1) by (intro mult_right_mono) simp_all
  also have "\<dots> = E * u + h * w" using w(1) by (simp add: field_simps)
  also have "\<dots> \<le> E * u + h" using w h by (simp add: mult_left_le)
  finally have e2: "\<bar>x * w - E\<bar> \<le> E * u + h" .
  have "\<bar>fl64 (x * w) - x * w\<bar> \<le> \<bar>x * w\<bar> / 2 ^ 53 + 1 / 2 ^ 1075"
    by (rule fl64_error)
  then have e3: "\<bar>fl64 (x * w) - x * w\<bar> \<le> \<bar>x * w\<bar> * u + h" by (simp add: u_def h_def)
  have "\<bar>x * w\<bar> \<le> E + (E * u + h)" using e2 assms(3) by linarith
  then have "\<bar>x * w\<bar> * u \<le> (E + (E * u + h)) * u"
    using u(1) by (intro mult_right_mono) simp_all
  also have "\<dots> = E * u + (E * u) * u + h * u" by (simp add: algebra_simps)
  also have "\<dots> \<le> E * u + E * u + h"
  proof -
    have "(E * u) * u \<le> E * u" using assms(3) u by (simp add: mult_left_le)
    moreover have "h * u \<le> h" using h u by (simp add: mult_left_le)
    ultimately show ?thesis by linarith
  qed
  finally have e4: "\<bar>x * w\<bar> * u \<le> E * u + E * u + h" .
  define p where "p = E * u"
  define r where "r = \<bar>x * w\<bar> * u"
  have "\<bar>fl64 (x * w) - E\<bar> \<le> 3 * (p + h)"
    using e2 e3 e4 unfolding p_def [symmetric] r_def [symmetric] by argo
  then have "\<bar>fl64 (x * w) - E\<bar> \<le> 3 * (E * u + h)" by (simp only: p_def)
  then have tol: "\<bar>fl64 (x * w) - E\<bar> \<le> double_tolerance E"
    by (simp add: double_tolerance_def u_def h_def)
  have "energy_kwh b1 = fl64 (energy_kwh b + fl64 (E * w))" by (simp add: b1_def)
  moreover have "energy_kwh b2 = fl64 (energy_kwh b1 - fl64 (E / w))"
    by (simp add: b2_def x_def)
  ultimately show ?thesis using c d tol unfolding w_def by blast
qed

theorem round_trip_double_witness:
  "0 < one_way_efficiency lossy_battery \<and> one_way_efficiency lossy_battery \<le> 1 \<and>
   (0::real) \<le> 10 \<and>
   fl64 (10 * one_way_efficiency lossy_battery)
     \<le> fl64 (capacity_kwh lossy_battery - energy_kwh lossy_battery) \<and>
   fl64 (10 / one_way_efficiency lossy_battery)
     \<le> fl64 (fl64 (energy_kwh lossy_battery + fl64 (10 * one_way_efficiency lossy_battery))
          - min_energy_kwh lossy_battery) \<and>
   (\<exists>consumed b1 delivered b2.
      charge_double lossy_battery 10 = Inr (consumed, b1) \<and>
      discharge_double b1 10 = Inr (delivered, b2) \<and>
      energy_kwh b1 = 55 \<and> energy_kwh b2 = 35 \<and>
      \<bar>delivered - 10\<bar> \<le> double_tolerance 10)"
proof -
  have h: "0 < one_way_efficiency lossy_battery" "one_way_efficiency lossy_battery \<le> 1"
    "(0::real) \<le> 10"
    "\<bar>capacity_kwh lossy_battery\<bar> \<le> 2 ^ 1000" "\<bar>energy_kwh lossy_battery\<bar> \<le> 2 ^ 1000"
    "\<bar>min_energy_kwh lossy_battery\<bar> \<le> 2 ^ 1000"
    "fl64 (10 * one_way_efficiency lossy_battery)
       \<le> fl64 (capacity_kwh lossy_battery - energy_kwh lossy_battery)"
    "fl64 (10 / one_way_efficiency lossy_battery)
       \<le> fl64 (fl64 (energy_kwh lossy_battery + fl64 (10 * one_way_efficiency lossy_battery))
            - min_energy_kwh lossy_battery)"
    by (simp_all add: lossy_battery_def)
  have v: "fl64 (energy_kwh lossy_battery + fl64 (10 * one_way_efficiency lossy_battery)) = 55"
    "fl64 (55 - fl64 (10 / one_way_efficiency lossy_battery)) = 35"
    by (simp_all add: lossy_battery_def)
  from round_trip_double [OF h] v show ?thesis
    by (intro conjI h(1,2,3,7,8)) auto
qed

section \<open>Rounding to six decimals\<close>

lemma py_round_zero: "py_round 0 n = 0"
  by (simp add: py_round_def)

lemma py_round_error: "\<bar>py_round x n - x\<bar> \<le> 1 / (2 * 10 ^ n)"
proof -
  define y where "y = x * 10 ^ n"
  define f where "f = \<lfloor>y\<rfloor>"
  define d where "d = y - of_int f"
  define k where "k = (if d < 1 / 2 then f else if 1 / 2 < d then f + 1
                       else if even f then f else f + 1)"
  have d: "0 \<le> d" "d < 1"
    unfolding d_def f_def by linarith+
  have "\<bar>of_int k - y\<bar> \<le> 1 / 2"
    using d by (auto simp add: k_def d_def)
  then have "\<bar>of_int k - y\<bar> / 10 ^ n \<le> (1 / 2) / 10 ^ n"
    by (rule divide_right_mono) simp
  moreover have "py_round x n - x = (of_int k - y) / 10 ^ n"
    by (simp add: py_round_def Let_def k_def d_def f_def y_def field_simps)
  ultimately show ?thesis by simp
qed

lemma py_round_six:
  "py_round x 6 \<le> x + 1 / 2000000" "x - 1 / 2000000 \<le> py_round x 6"
proof -
  have "\<bar>py_round x 6 - x\<bar> \<le> 1 / 2000000"
    using py_round_error [of x 6] by simp
  then show "py_round x 6 \<le> x + 1 / 2000000" "x - 1 / 2000000 \<le> py_round x 6"
    by linarith+
qed

lemma make_flows_solar_bound:
  assumes "s2l + s2b + s2g + c = solar"
  shows "solar_to_load (make_flows s2l s2b s2g b2l g2l c)
         + solar_to_battery (make_flows s2l s2b s2g b2l g2l c)
         + solar_to_grid (make_flows s2l s2b s2g b2l g2l c)
         + curtailed (make_flows s2l s2b s2g b2l g2l c) \<le> solar + 2 / 10 ^ 6"
  using assms py_round_six(1) [of s2l] py_round_six(1) [of s2b]
    py_round_six(1) [of s2g] py_round_six(1) [of c]
  by (simp add: make_flows_def Let_def)

lemma make_flows_load_bound:
  assumes "s2l + b2l + g2l = load"
  shows "load - 3 / (2 * 10 ^ 6)
         \<le> solar_to_load (make_flows s2l s2b s2g b2l g2l c)
           + battery_to_load (make_flows s2l s2b s2g b2l g2l c)
           + grid_to_load (make_flows s2l s2b s2g b2l g2l c)"
  using assms py_round_six(2) [of s2l] py_round_six(2) [of b2l]
    py_round_six(2) [of g2l]
  by (simp add: make_flows_def Let_def)

section \<open>Properties of the energy management system\<close>

text \<open>
  C9: an \<open>EnergyManagementSystem\<close> can be constructed with any string; when the string is
  none of the three strategy names, \<open>distribute_energy\<close> raises \<open>ValueError\<close> instead of
  returning a flow breakdown, and the battery and the grid are as they were before the call.
\<close>

theorem unknown_strategy_raises:
  assumes "s \<notin> {''LOAD_PRIORITY'', ''CHARGE_PRIORITY'', ''PRODUCE_PRIORITY''}"
  shows "distribute_energy (EnergyManagementSystem_init s) solar load b g dt =
           (Inl (ValueError (''Unknown strategy: '' @ s)), b, g)"
  using assms by (simp add: distribute_energy_def EnergyManagementSystem_init_def)

theorem unknown_strategy_raises_witness:
  "''load_priority'' \<notin> {''LOAD_PRIORITY'', ''CHARGE_PRIORITY'', ''PRODUCE_PRIORITY''} \<and>
   distribute_energy (EnergyManagementSystem_init ''load_priority'') 5 3 lossy_battery
       (Grid_init (3 / 400) (9 / 1000) 20) 1 =
     (Inl (ValueError ''Unknown strategy: load_priority''), lossy_battery,
      Grid_init (3 / 400) (9 / 1000) 20)"
  using unknown_strategy_raises [of "''load_priority''" 5 3 lossy_battery
      "Grid_init (3 / 400) (9 / 1000) 20" 1]
  by simp

text \<open>
  C6: when solar is below load, \<open>CHARGE_PRIORITY\<close> and \<open>LOAD_PRIORITY\<close> return the same
  outcome from the same battery and grid: the same flow breakdown (or the same exception),
  the same final battery and the same final grid.
\<close>

theorem charge_priority_deficit_eq_load_priority:
  assumes "solar < load"
  shows "distribute_energy (EnergyManagementSystem_init ''CHARGE_PRIORITY'') solar load b g dt =
         distribute_energy (EnergyManagementSystem_init ''LOAD_PRIORITY'') solar load b g dt"
  using assms
  by (simp add: distribute_energy_def EnergyManagementSystem_init_def charge_priority_def
      load_priority_def)

theorem charge_priority_deficit_eq_load_priority_witness:
  "(1::real) < 3 \<and>
   distribute_energy (EnergyManagementSystem_init ''CHARGE_PRIORITY'') 1 3 lossy_battery
       (Grid_init (3 / 400) (9 / 1000) 20) 1 =
   distribute_energy (EnergyManagementSystem_init ''LOAD_PRIORITY'') 1 3 lossy_battery
       (Grid_init (3 / 400) (9 / 1000) 20) 1 \<and>
   distribute_energy (EnergyManagementSystem_init ''LOAD_PRIORITY'') 1 3 lossy_battery
       (Grid_init (3 / 400) (9 / 1000) 20) 1 =
     (Inr (make_flows 1 0 0 2 0 0), lossy_battery\<lparr>energy_kwh := 46\<rparr>,
      Grid_init (3 / 400) (9 / 1000) 20)"
proof -
  have h: "(1::real) < 3" by simp
  have v: "distribute_energy (EnergyManagementSystem_init ''LOAD_PRIORITY'') 1 3 lossy_battery
       (Grid_init (3 / 400) (9 / 1000) 20) 1 =
     (Inr (make_flows 1 0 0 2 0 0), lossy_battery\<lparr>energy_kwh := 46\<rparr>,
      Grid_init (3 / 400) (9 / 1000) 20)"
    by (simp add: distribute_energy_def EnergyManagementSystem_init_def load_priority_def
        discharge_def lossy_battery_def Let_def)
  from charge_priority_deficit_eq_load_priority [OF h] h v show ?thesis by simp
qed

lemma export_energy_imports:
  "total_energy_imported_kwh (snd (export_energy g p dt)) = total_energy_imported_kwh g"
  "total_import_cost (snd (export_energy g p dt)) = total_import_cost g"
  by (simp_all add: export_energy_def Let_def)

lemma grid_to_load_make_flows:
  "grid_to_load (make_flows s2l s2b s2g b2l g2l c) = py_round g2l 6"
  "unmet_load (make_flows s2l s2b s2g b2l g2l c) = py_round g2l 6"
  "battery_to_load (make_flows s2l s2b s2g b2l g2l c) = py_round b2l 6"
  by (simp_all add: make_flows_def Let_def)

text \<open>
  C10: under \<open>LOAD_PRIORITY\<close> with solar at least load, the call never imports: the grid's
  imported-energy and import-cost counters are unchanged, and the returned \<open>grid_to_load\<close>
  and \<open>unmet_load\<close> are 0. (The call returns a breakdown unless the time step or the
  battery's one-way efficiency is zero, where Python raises \<open>ZeroDivisionError\<close>; the
  counters are unchanged then too.)
\<close>

theorem load_priority_surplus_no_import:
  assumes "load \<le> solar"
  shows "\<exists>r b' g'.
           distribute_energy (EnergyManagementSystem_init ''LOAD_PRIORITY'') solar load b g dt
             = (r, b', g') \<and>
           total_energy_imported_kwh g' = total_energy_imported_kwh g \<and>
           total_import_cost g' = total_import_cost g \<and>
           (case r of Inr f \<Rightarrow> grid_to_load f = 0 \<and> unmet_load f = 0
                    | Inl err \<Rightarrow> dt = 0 \<or> one_way_efficiency b = 0)"
  using assms
  by (auto simp add: distribute_energy_def EnergyManagementSystem_init_def load_priority_def
      Let_def charge_def export_energy_imports grid_to_load_make_flows py_round_zero
      case_prod_beta split: sum.splits if_splits)

theorem load_priority_surplus_no_import_witness:
  "(3::real) \<le> 10 \<and>
   (\<exists>r b' g'.
      distribute_energy (EnergyManagementSystem_init ''LOAD_PRIORITY'') 10 3 lossy_battery
          (Grid_init (3 / 400) (9 / 1000) 20) 1 = (r, b', g') \<and>
      total_energy_imported_kwh g'
        = total_energy_imported_kwh (Grid_init (3 / 400) (9 / 1000) 20) \<and>
      total_import_cost g' = total_import_cost (Grid_init (3 / 400) (9 / 1000) 20) \<and>
      (case r of Inr f \<Rightarrow> grid_to_load f = 0 \<and> unmet_load f = 0
               | Inl err \<Rightarrow> (1::real) = 0 \<or> one_way_efficiency lossy_battery = 0))"
  using load_priority_surplus_no_import [of 3 10 lossy_battery
      "Grid_init (3 / 400) (9 / 1000) 20" 1]
  by simp

lemma charge_energy_mono:
  assumes "0 < one_way_efficiency b" "0 \<le> e" "energy_kwh b \<le> capacity_kwh b"
    and "charge b e = Inr (r, b')"
  shows "energy_kwh b \<le> energy_kwh b'"
proof -
  have "0 \<le> min (e * one_way_efficiency b) (capacity_kwh b - energy_kwh b)"
    using assms(1,2,3) by simp
  moreover have "energy_kwh b' = energy_kwh b
      + min (e * one_way_efficiency b) (capacity_kwh b - energy_kwh b)"
    using assms(1,4) by (auto simp add: charge_def Let_def)
  ultimately show ?thesis by simp
qed

text \<open>
  C5: under \<open>CHARGE_PRIORITY\<close> with solar at least load (a non-negative solar power, a
  positive time step and a battery within its capacity), the whole solar energy is offered
  to the battery in one \<open>charge\<close> call and the battery is left exactly as that call left it:
  it is never discharged, \<open>battery_to_load\<close> is 0 and the stored energy does not decrease.
  Whatever load the solar remaining after charging does not cover is imported from the
  grid: \<open>grid_to_load\<close> is that deficit (rounded to six decimals) and the grid's imported
  energy grows by the deficit times the time step.
\<close>

theorem charge_priority_surplus:
  assumes "load \<le> solar" and "0 \<le> solar" and "0 < dt"
    and "0 < one_way_efficiency b" and "energy_kwh b \<le> capacity_kwh b"
  shows "\<exists>charged b' f g'.
           charge b (solar * dt) = Inr (charged, b') \<and>
           distribute_energy (EnergyManagementSystem_init ''CHARGE_PRIORITY'') solar load b g dt
             = (Inr f, b', g') \<and>
           battery_to_load f = 0 \<and>
           energy_kwh b \<le> energy_kwh b' \<and>
           grid_to_load f = py_round (max 0 (load - (solar * dt - charged) / dt)) 6 \<and>
           total_energy_imported_kwh g'
             = total_energy_imported_kwh g + max 0 (load - (solar * dt - charged) / dt) * dt"
proof -
  have e: "0 \<le> solar * dt" using assms(2,3) by simp
  obtain charged b' where c: "charge b (solar * dt) = Inr (charged, b')"
    using assms(4) by (simp add: charge_def Let_def)
  have mono: "energy_kwh b \<le> energy_kwh b'"
    using charge_energy_mono [OF assms(4) e assms(5) c] .
  define remaining where "remaining = (solar * dt - charged) / dt"
  have "\<exists>f g'. distribute_energy (EnergyManagementSystem_init ''CHARGE_PRIORITY'')
              solar load b g dt = (Inr f, b', g') \<and> battery_to_load f = 0 \<and>
            grid_to_load f = py_round (max 0 (load - remaining)) 6 \<and>
            total_energy_imported_kwh g'
              = total_energy_imported_kwh g + max 0 (load - remaining) * dt"
  proof (cases "load \<le> remaining")
    case True
    then have m: "max 0 (load - remaining) = 0" by simp
    show ?thesis
      unfolding m using True assms(1,3) c
      by (simp add: distribute_energy_def EnergyManagementSystem_init_def charge_priority_def
          Let_def remaining_def [symmetric] case_prod_beta export_energy_imports
          grid_to_load_make_flows py_round_zero)
  next
    case False
    then have m: "max 0 (load - remaining) = load - remaining" by simp
    show ?thesis
      unfolding m using False assms(1,3) c
      by (simp add: distribute_energy_def EnergyManagementSystem_init_def charge_priority_def
          Let_def remaining_def [symmetric] import_energy_def
          grid_to_load_make_flows py_round_zero)
  qed
  then obtain f g' where
    "distribute_energy (EnergyManagementSystem_init ''CHARGE_PRIORITY'')
              solar load b g dt = (Inr f, b', g')" "battery_to_load f = 0"
    "grid_to_load f = py_round (max 0 (load - (solar * dt - charged) / dt)) 6"
    "total_energy_imported_kwh g'
       = total_energy_imported_kwh g + max 0 (load - (solar * dt - charged) / dt) * dt"
    unfolding remaining_def by blast
  with c mono show ?thesis by blast
qed

theorem charge_priority_surplus_witness:
  "(3::real) \<le> 5 \<and> (0::real) \<le> 5 \<and> (0::real) < 1 \<and>
   0 < one_way_efficiency lossy_battery \<and>
   energy_kwh lossy_battery \<le> capacity_kwh lossy_battery \<and>
   distribute_energy (EnergyManagementSystem_init ''CHARGE_PRIORITY'') 5 3 lossy_battery
       (Grid_init (3 / 400) (9 / 1000) 20) 1
     = (Inr (make_flows 0 5 0 0 3 0), lossy_battery\<lparr>energy_kwh := 105 / 2\<rparr>,
        (Grid_init (3 / 400) (9 / 1000) 20)
          \<lparr>total_energy_imported_kwh := 3, total_import_cost := 9 / 400\<rparr>) \<and>
   (\<exists>charged b' f g'.
      charge lossy_battery (5 * 1) = Inr (charged, b') \<and>
      distribute_energy (EnergyManagementSystem_init ''CHARGE_PRIORITY'') 5 3 lossy_battery
          (Grid_init (3 / 400) (9 / 1000) 20) 1 = (Inr f, b', g') \<and>
      battery_to_load f = 0 \<and>
      energy_kwh lossy_battery \<le> energy_kwh b' \<and>
      grid_to_load f = py_round (max 0 (3 - (5 * 1 - charged) / 1)) 6 \<and>
      total_energy_imported_kwh g'
        = total_energy_imported_kwh (Grid_init (3 / 400) (9 / 1000) 20)
          + max 0 (3 - (5 * 1 - charged) / 1) * 1)"
proof -
  have h: "(3::real) \<le> 5" "(0::real) \<le> 5" "(0::real) < 1"
    "0 < one_way_efficiency lossy_battery"
    "energy_kwh lossy_battery \<le> capacity_kwh lossy_battery"
    by (simp_all add: lossy_battery_def)
  have v: "distribute_energy (EnergyManagementSystem_init ''CHARGE_PRIORITY'') 5 3
       lossy_battery (Grid_init (3 / 400) (9 / 1000) 20) 1
     = (Inr (make_flows 0 5 0 0 3 0), lossy_battery\<lparr>energy_kwh := 105 / 2\<rparr>,
        (Grid_init (3 / 400) (9 / 1000) 20)
          \<lparr>total_energy_imported_kwh := 3, total_import_cost := 9 / 400\<rparr>)"
    by (simp add: distribute_energy_def EnergyManagementSystem_init_def charge_priority_def
        charge_def import_energy_def lossy_battery_def Grid_init_def Let_def)
  from charge_priority_surplus [OF h, of "Grid_init (3 / 400) (9 / 1000) 20"] h v
  show ?thesis by simp
qed

lemma within_toleranceI:
  assumes "s2l + s2b + s2g + c = solar" and "s2l + b2l + g2l = load"
  shows "within_tolerance solar load (make_flows s2l s2b s2g b2l g2l c)"
  unfolding within_tolerance_def
  using make_flows_solar_bound [OF assms(1)] make_flows_load_bound [OF assms(2)]
  by blast

lemma charge_consumed:
  assumes "0 < one_way_efficiency b"
  shows "\<exists>r b'. charge b e = Inr (r, b') \<and> r \<le> e"
proof -
  have "min (e * one_way_efficiency b) (capacity_kwh b - energy_kwh b)
          / one_way_efficiency b \<le> e"
    using assms by (simp add: pos_divide_le_eq)
  then show ?thesis using assms by (simp add: charge_def Let_def)
qed

lemma discharge_supplied:
  assumes "0 < one_way_efficiency b"
  shows "\<exists>r b'. discharge b e = Inr (r, b') \<and> r \<le> e"
proof -
  have "min (e / one_way_efficiency b) (energy_kwh b - min_energy_kwh b)
          * one_way_efficiency b \<le> e"
    using assms by (simp add: pos_le_divide_eq [symmetric])
  then show ?thesis using assms by (simp add: discharge_def Let_def)
qed

lemma load_priority_balance:
  assumes "0 < dt" and "0 < one_way_efficiency b"
  shows "\<exists>f b' g'. load_priority solar load b g dt = (Inr f, b', g') \<and>
           within_tolerance solar load f"
proof (cases "load \<le> solar")
  case True
  obtain r b1 where c: "charge b ((solar - load) * dt) = Inr (r, b1)"
    and r: "r \<le> (solar - load) * dt"
    using charge_consumed [OF assms(2)] by blast
  have rem: "0 \<le> ((solar - load) * dt - r) / dt" using r assms(1) by simp
  have split: "r / dt + ((solar - load) * dt - r) / dt = solar - load"
    using assms(1) by (simp add: field_simps)
  show ?thesis
    using True assms(1) c rem split
    by (auto simp add: load_priority_def Let_def export_energy_def min_def
        intro!: within_toleranceI)
next
  case False
  obtain r b1 where d: "discharge b ((load - solar) * dt) = Inr (r, b1)"
    and r: "r \<le> (load - solar) * dt"
    using discharge_supplied [OF assms(2)] by blast
  have rem: "0 \<le> load - solar - r / dt"
    using r assms(1) by (simp add: field_simps)
  show ?thesis
    using False assms(1) d rem
    by (auto simp add: load_priority_def Let_def import_energy_def
        intro!: within_toleranceI)
qed

lemma charge_priority_balance:
  assumes "0 < dt" and "0 < one_way_efficiency b"
  shows "\<exists>f b' g'. charge_priority solar load b g dt = (Inr f, b', g') \<and>
           within_tolerance solar load f"
proof (cases "load \<le> solar")
  case True
  obtain r b1 where c: "charge b (solar * dt) = Inr (r, b1)"
    using charge_consumed [OF assms(2)] by blast
  have split: "r / dt + (solar * dt - r) / dt = solar"
    using assms(1) by (simp add: field_simps)
  show ?thesis
    using True assms(1) c split
    by (auto simp add: charge_priority_def Let_def export_energy_def import_energy_def
        min_def intro!: within_toleranceI)
next
  case False
  obtain r b1 where d: "discharge b ((load - solar) * dt) = Inr (r, b1)"
    and r: "r \<le> (load - solar) * dt"
    using discharge_supplied [OF assms(2)] by blast
  have rem: "0 \<le> load - solar - r / dt"
    using r assms(1) by (simp add: field_simps)
  show ?thesis
    using False assms(1) d rem
    by (auto simp add: charge_priority_def Let_def import_energy_def
        intro!: within_toleranceI)
qed

lemma produce_priority_balance:
  assumes "0 < dt" and "0 < one_way_efficiency b" and "0 \<le> load"
  shows "\<exists>f b' g'. produce_priority solar load b g dt = (Inr f, b', g') \<and>
           within_tolerance solar load f"
proof -
  define exported where "exported = min solar (export_limit_kw g)"
  define g1 where "g1 = snd (export_energy g solar dt)"
  have ex: "export_energy g solar dt = (exported, g1)"
    by (simp add: export_energy_def Let_def exported_def g1_def)
  define rem0 where "rem0 = solar - exported"
  have rem0: "0 \<le> rem0" by (simp add: rem0_def exported_def)
  text \<open>Steps 3 to 5, for any outcome of step 2.\<close>
  define tail :: "real \<Rightarrow> real \<Rightarrow> Battery \<Rightarrow> ems_result" where
    "tail s2b rem1 b1 =
       (let (s2l, deficit, curt) =
              (if rem1 > 0 then
                 (let s2l = min rem1 load; deficit = load - s2l
                  in (s2l, deficit, (if rem1 > s2l then rem1 - s2l else 0)))
               else (0, load, 0))
        in case (if deficit > 0 then
                   (let requested_energy = deficit * dt
                    in case discharge b1 requested_energy of
                         Inl err \<Rightarrow> (Inl err, b1)
                       | Inr (discharged_energy, battery') \<Rightarrow>
                           if dt = 0 then (Inl ZeroDivisionError, battery')
                           else (let discharged_power = discharged_energy / dt
                                 in (Inr (discharged_power, deficit - discharged_power),
                                     battery')))
                 else (Inr (0, deficit), b1)) of
             (Inl err, battery2) \<Rightarrow> (Inl err, battery2, g1)
           | (Inr (b2l, deficit'), battery2) \<Rightarrow>
               (let (g2l, grid2) =
                      (if deficit' > 0
                       then (deficit', snd (import_energy g1 deficit' dt))
                       else (0, g1))
                in (Inr (make_flows s2l s2b exported b2l g2l curt), battery2, grid2)))"
    for s2b rem1 b1
  have tail_ok: "\<exists>f b' g'. tail s2b rem1 b1 = (Inr f, b', g') \<and> within_tolerance solar load f"
    if h1: "s2b + rem1 = rem0" and h2: "0 \<le> rem1" and h3: "0 < one_way_efficiency b1"
    for s2b rem1 b1
  proof -
    define s2l where "s2l = (if rem1 > 0 then min rem1 load else 0)"
    define deficit where "deficit = load - s2l"
    define curt where "curt = (if rem1 > 0 \<and> rem1 > s2l then rem1 - s2l else 0)"
    have solar_side: "s2l + s2b + exported + curt = solar"
      using h1 h2 by (auto simp add: s2l_def curt_def rem0_def min_def)
    obtain r b2 where d: "discharge b1 (deficit * dt) = Inr (r, b2)"
      and r: "r \<le> deficit * dt"
      using discharge_supplied [OF h3] by blast
    have left: "0 \<le> deficit - r / dt"
      using r assms(1) by (simp add: field_simps)
    have pre: "(if rem1 > 0 then
                 (let s2l = min rem1 load; deficit = load - s2l
                  in (s2l, deficit, (if rem1 > s2l then rem1 - s2l else 0)))
               else (0, load, 0)) = (s2l, deficit, curt)"
      by (simp add: s2l_def deficit_def curt_def Let_def)
    show ?thesis
    proof (cases "deficit > 0")
      case True
      have "tail s2b rem1 b1 =
              (Inr (make_flows s2l s2b exported (r / dt)
                      (if deficit - r / dt > 0 then deficit - r / dt else 0) curt),
               b2,
               (if deficit - r / dt > 0
                then snd (import_energy g1 (deficit - r / dt) dt) else g1))"
        unfolding tail_def pre using True d assms(1) by (simp add: Let_def)
      moreover have "within_tolerance solar load (make_flows s2l s2b exported (r / dt)
                       (if deficit - r / dt > 0 then deficit - r / dt else 0) curt)"
        using solar_side left by (intro within_toleranceI) (auto simp add: deficit_def)
      ultimately show ?thesis by simp
    next
      case False
      have "tail s2b rem1 b1 = (Inr (make_flows s2l s2b exported 0 deficit curt), b1, g1)
            \<or> tail s2b rem1 b1 = (Inr (make_flows s2l s2b exported 0 0 curt), b1, g1)"
        unfolding tail_def pre using False by (simp add: Let_def)
      moreover have "deficit = 0"
        using False h2 assms(3) by (auto simp add: deficit_def s2l_def min_def split: if_splits)
      moreover have "within_tolerance solar load (make_flows s2l s2b exported 0 0 curt)"
        using solar_side \<open>deficit = 0\<close>
        by (intro within_toleranceI) (auto simp add: deficit_def)
      ultimately show ?thesis by auto
    qed
  qed
  show ?thesis
  proof (cases "rem0 > 0")
    case True
    obtain r b1 where c: "charge b (rem0 * dt) = Inr (r, b1)" and r: "r \<le> rem0 * dt"
      using charge_consumed [OF assms(2)] by blast
    have w: "0 < one_way_efficiency b1"
      using c assms(2) by (auto simp add: charge_def Let_def)
    have sum: "r / dt + (rem0 * dt - r) / dt = rem0" and pos: "0 \<le> (rem0 * dt - r) / dt"
      using assms(1) r by (simp_all add: field_simps)
    have "produce_priority solar load b g dt = tail (r / dt) ((rem0 * dt - r) / dt) b1"
      unfolding produce_priority_def ex tail_def rem0_def
      using True [unfolded rem0_def] c [unfolded rem0_def] assms(1) by (simp add: Let_def)
    with tail_ok [OF sum pos w] show ?thesis by simp
  next
    case False
    with rem0 have z: "rem0 = 0" by simp
    have "produce_priority solar load b g dt = tail 0 rem0 b"
      unfolding produce_priority_def ex tail_def rem0_def
      using False [unfolded rem0_def] by (simp add: Let_def)
    with tail_ok [of 0 rem0 b] rem0 assms(2) show ?thesis by simp
  qed
qed

text \<open>
  C1: for each of the three strategies, non-negative solar and load, a positive time step
  and a battery within its bounds, \<open>distribute_energy\<close> returns a flow breakdown with
  \<open>solar_to_load + solar_to_battery + solar_to_grid + curtailed \<le> solar_kw\<close> and
  \<open>solar_to_load + battery_to_load + grid_to_load \<ge> load_kw\<close>, each up to the rounding of
  its fields to six decimals (half a millionth per field).
\<close>

theorem energy_balance:
  assumes "strategy ems \<in> {''LOAD_PRIORITY'', ''CHARGE_PRIORITY'', ''PRODUCE_PRIORITY''}"
    and "0 \<le> solar" and "0 \<le> load" and "0 < dt"
    and "0 < one_way_efficiency b"
    and "min_energy_kwh b \<le> energy_kwh b" and "energy_kwh b \<le> capacity_kwh b"
  shows "\<exists>f b' g'. distribute_energy ems solar load b g dt = (Inr f, b', g') \<and>
           solar_to_load f + solar_to_battery f + solar_to_grid f + curtailed f
             \<le> solar + 2 / 10 ^ 6 \<and>
           load - 3 / (2 * 10 ^ 6)
             \<le> solar_to_load f + battery_to_load f + grid_to_load f"
proof -
  consider "strategy ems = ''LOAD_PRIORITY''" | "strategy ems = ''CHARGE_PRIORITY''"
    | "strategy ems = ''PRODUCE_PRIORITY''"
    using assms(1) by blast
  then have "\<exists>f b' g'. distribute_energy ems solar load b g dt = (Inr f, b', g') \<and>
               within_tolerance solar load f"
  proof cases
    case 1
    with load_priority_balance [OF assms(4,5)] show ?thesis
      by (simp add: distribute_energy_def)
  next
    case 2
    with charge_priority_balance [OF assms(4,5)] show ?thesis
      by (simp add: distribute_energy_def)
  next
    case 3
    with produce_priority_balance [OF assms(4,5,3)] show ?thesis
      by (simp add: distribute_energy_def)
  qed
  then show ?thesis unfolding within_tolerance_def by blast
qed

theorem energy_balance_witness:
  "strategy (EnergyManagementSystem_init ''PRODUCE_PRIORITY'')
     \<in> {''LOAD_PRIORITY'', ''CHARGE_PRIORITY'', ''PRODUCE_PRIORITY''} \<and>
   (0::real) \<le> 25 \<and> (0::real) \<le> 3 \<and> (0::real) < 1 \<and>
   0 < one_way_efficiency lossy_battery \<and>
   min_energy_kwh lossy_battery \<le> energy_kwh lossy_battery \<and>
   energy_kwh lossy_battery \<le> capacity_kwh lossy_battery \<and>
   (\<exists>f b' g'.
      distribute_energy (EnergyManagementSystem_init ''PRODUCE_PRIORITY'') 25 3 lossy_battery
          (Grid_init (3 / 400) (9 / 1000) 20) 1 = (Inr f, b', g') \<and>
      solar_to_load f + solar_to_battery f + solar_to_grid f + curtailed f
        \<le> 25 + 2 / 10 ^ 6 \<and>
      3 - 3 / (2 * 10 ^ 6) \<le> solar_to_load f + battery_to_load f + grid_to_load f)"
  using energy_balance [of "EnergyManagementSystem_init ''PRODUCE_PRIORITY''" 25 3 1
      lossy_battery "Grid_init (3 / 400) (9 / 1000) 20"]
  by (simp add: EnergyManagementSystem_init_def lossy_battery_def)

section \<open>Properties of the simulation loop\<close>

lemma simulation_step_environment:
  assumes "simulation_step R tsh spd k s lv = Inr (t, lw)"
  shows "\<exists>cols. environment_step R tsh spd k (environment s) = Some (cols, environment t) \<and>
           map weather_columns (sim_hourly_data t)
             = map weather_columns (sim_hourly_data s) @ [cols]"
proof -
  define hr :: real where
    "hr = of_int ((k * cfg_time_step_minutes (sim_config s)) mod 1440) / 60"
  define sa where
    "sa = SolarPanel_generate (sim_solar_panel s) hr (sim_current_cloud_coverage s)"
  define sg where
    "sg = (if is_operational (sim_inverter s) then apply_limit (sim_inverter s) sa else 0)"
  obtain load_demand rng1 where
    lg: "Load_generate R (sim_load s) hr (sim_rng s) = (load_demand, rng1)"
    by (cases "Load_generate R (sim_load s) hr (sim_rng s)")
  obtain r b' g' where
    de: "distribute_energy (sim_ems s) sg load_demand (sim_battery s) (sim_grid s) tsh
           = (r, b', g')"
    by (cases "distribute_energy (sim_ems s) sg load_demand (sim_battery s) (sim_grid s) tsh")
  note facts = lg [unfolded hr_def] de [unfolded sg_def sa_def hr_def]
  obtain fl where r: "r = Inr fl"
    using facts assms by (cases r) (simp_all add: simulation_step_def Let_def)
  note facts = facts [unfolded r]
  obtain soc where soc: "get_soc b' = Inr soc"
    using facts assms by (cases "get_soc b'") (simp_all add: simulation_step_def Let_def)
  have tsm: "\<not> cfg_time_step_minutes (sim_config s) < 0"
    using facts soc assms by (auto simp add: simulation_step_def Let_def)
  have spd: "spd \<noteq> 0"
    using facts soc tsm assms by (auto simp add: simulation_step_def Let_def)
  show ?thesis
  proof (cases "(k + 1) mod spd = 0 \<and> k + 1 > 0")
    case False
    have t: "t = s\<lparr>sim_rng := rng1, sim_battery := b', sim_grid := g',
                     sim_inverter := update (sim_inverter s) tsh,
                     sim_hourly_data := sim_hourly_data s @
                       [\<lparr>timestamp = k * cfg_time_step_minutes (sim_config s), step = k,
                         hour = hr, solar_generated_kw = sg, solar_available_kw = sa,
                         load_demand_kw = load_demand,
                         cloud_coverage = sim_current_cloud_coverage s,
                         battery_soc = soc, rec_flows = fl,
                         inverter_operational = is_operational (sim_inverter s)\<rparr>]\<rparr>"
      using facts soc tsm spd False assms
      by (auto simp add: simulation_step_def Let_def hr_def sa_def sg_def)
    have "environment_step R tsh spd k (environment s)
            = Some ((sim_current_cloud_coverage s, sa, load_demand), environment t)"
      using lg False unfolding t
      by (auto simp add: environment_step_def environment_def Let_def hr_def sa_def)
    moreover have "map weather_columns (sim_hourly_data t)
        = map weather_columns (sim_hourly_data s)
          @ [(sim_current_cloud_coverage s, sa, load_demand)]"
      unfolding t by (simp add: weather_columns_def)
    ultimately show ?thesis by blast
  next
    case True
    obtain inverter2 rng2 where
      cf: "check_failure R (update (sim_inverter s) tsh) rng1 = Inr (inverter2, rng2)"
      using facts soc tsm spd True assms
      by (cases "check_failure R (update (sim_inverter s) tsh) rng1")
        (auto simp add: simulation_step_def log_daily_summary_def Let_def
          split: if_splits)
    obtain coverage rng3 where
      gc: "get_daily_coverage R (sim_cloud_coverage s) rng2 = Inr (coverage, rng3)"
      using facts soc tsm spd True cf assms
      by (cases "get_daily_coverage R (sim_cloud_coverage s) rng2")
        (auto simp add: simulation_step_def log_daily_summary_def Let_def
          split: if_splits)
    have t: "sim_rng t = rng3" "sim_inverter t = inverter2"
      "sim_current_cloud_coverage t = coverage" "sim_solar_panel t = sim_solar_panel s"
      "sim_load t = sim_load s" "sim_cloud_coverage t = sim_cloud_coverage s"
      "sim_config t = sim_config s"
      "sim_hourly_data t = sim_hourly_data s @
                       [\<lparr>timestamp = k * cfg_time_step_minutes (sim_config s), step = k,
                         hour = hr, solar_generated_kw = sg, solar_available_kw = sa,
                         load_demand_kw = load_demand,
                         cloud_coverage = sim_current_cloud_coverage s,
                         battery_soc = soc, rec_flows = fl,
                         inverter_operational = is_operational (sim_inverter s)\<rparr>]"
      using facts soc tsm spd True cf gc assms
      by (auto simp add: simulation_step_def log_daily_summary_def Let_def hr_def sa_def
          sg_def split: if_splits)
    have "environment_step R tsh spd k (environment s)
            = Some ((sim_current_cloud_coverage s, sa, load_demand), environment t)"
      using lg True cf gc
      by (simp add: environment_step_def environment_def Let_def hr_def sa_def t)
    moreover have "map weather_columns (sim_hourly_data t)
        = map weather_columns (sim_hourly_data s)
          @ [(sim_current_cloud_coverage s, sa, load_demand)]"
      by (simp add: t weather_columns_def)
    ultimately show ?thesis by blast
  qed
qed

declare simulation_loop.simps [simp del]

lemma log_daily_summary_environment:
  assumes "log_daily_summary s lv x = Inr t"
  shows "environment t = environment s" "sim_hourly_data t = sim_hourly_data s"
  using assms
  by (auto simp add: log_daily_summary_def environment_def split: sum.splits)

lemma simulation_loop_same_environment:
  assumes "simulation_loop R tsh spd n k s1 lv1 = Inr t1"
    and "simulation_loop R tsh spd n k s2 lv2 = Inr t2"
    and "environment s1 = environment s2"
    and "map weather_columns (sim_hourly_data s1) = map weather_columns (sim_hourly_data s2)"
  shows "environment t1 = environment t2 \<and>
         map weather_columns (sim_hourly_data t1) = map weather_columns (sim_hourly_data t2)"
  using assms
proof (induction R tsh spd n k s1 lv1 arbitrary: s2 lv2
    rule: simulation_loop.induct)
  case (1 R tsh spd n k s1 lv1)
  show ?case
  proof (cases "k < n")
    case True
    obtain u1 lw1 where st1: "simulation_step R tsh spd k s1 lv1 = Inr (u1, lw1)"
      and rest1: "simulation_loop R tsh spd n (k + 1) u1 lw1 = Inr t1"
      using "1.prems"(1) True
      by (subst (asm) simulation_loop.simps) (auto split: sum.splits)
    obtain u2 lw2 where st2: "simulation_step R tsh spd k s2 lv2 = Inr (u2, lw2)"
      and rest2: "simulation_loop R tsh spd n (k + 1) u2 lw2 = Inr t2"
      using "1.prems"(2) True
      by (subst (asm) simulation_loop.simps) (auto split: sum.splits)
    from simulation_step_environment [OF st1] simulation_step_environment [OF st2]
      "1.prems"(3,4)
    have "environment u1 = environment u2"
      "map weather_columns (sim_hourly_data u1) = map weather_columns (sim_hourly_data u2)"
      by auto
    with "1.IH" [OF True st1 refl rest1 rest2] show ?thesis by simp
  next
    case False
    have "environment t1 = environment s1 \<and> sim_hourly_data t1 = sim_hourly_data s1"
      using "1.prems"(1) False log_daily_summary_environment [of s1 lv1 _ t1]
      by (subst (asm) simulation_loop.simps) (auto split: if_splits)
    moreover
    have "environment t2 = environment s2 \<and> sim_hourly_data t2 = sim_hourly_data s2"
      using "1.prems"(2) False log_daily_summary_environment [of s2 lv2 _ t2]
      by (subst (asm) simulation_loop.simps) (auto split: if_splits)
    ultimately show ?thesis using "1.prems"(3,4) by simp
  qed
qed

lemma Simulation_init_environment:
  assumes "Simulation_init R clock1 (cfg\<lparr>cfg_strategy := strategy1\<rparr>) = Inr s1"
    and "Simulation_init R clock2 (cfg\<lparr>cfg_strategy := strategy2\<rparr>) = Inr s2"
    and "cfg_random_seed cfg = Some seed"
  shows "environment s1 = environment s2" "sim_hourly_data s1 = []" "sim_hourly_data s2 = []"
  using assms
  by (auto simp add: Simulation_init_def environment_def Let_def split: sum.splits)

text \<open>
  C8: two complete runs from the same seed and the same configuration except for the
  strategy name record the same sequence of cloud coverage, available solar power and load
  demand, step by step, and leave the generator in the same state: the draws made by the
  load, the inverter and the cloud coverage do not depend on the strategy. (A run is
  complete when it returns; the two clocks are only read when the configuration has no
  seed.)
\<close>

theorem draws_independent_of_strategy:
  assumes "cfg_random_seed cfg = Some seed"
    and "simulate R clock1 (cfg\<lparr>cfg_strategy := strategy1\<rparr>) = Inr t1"
    and "simulate R clock2 (cfg\<lparr>cfg_strategy := strategy2\<rparr>) = Inr t2"
  shows "map weather_columns (sim_hourly_data t1) = map weather_columns (sim_hourly_data t2) \<and>
         sim_rng t1 = sim_rng t2"
proof -
  obtain s1 where i1: "Simulation_init R clock1 (cfg\<lparr>cfg_strategy := strategy1\<rparr>) = Inr s1"
    and r1: "run R s1 = Inr t1"
    using assms(2) by (auto simp add: simulate_def split: sum.splits)
  obtain s2 where i2: "Simulation_init R clock2 (cfg\<lparr>cfg_strategy := strategy2\<rparr>) = Inr s2"
    and r2: "run R s2 = Inr t2"
    using assms(3) by (auto simp add: simulate_def split: sum.splits)
  note e = Simulation_init_environment [OF i1 i2 assms(1)]
  have c: "cfg_time_step_minutes (sim_config s1) = cfg_time_step_minutes (sim_config s2)"
    "cfg_duration_days (sim_config s1) = cfg_duration_days (sim_config s2)"
    using e(1) by (simp_all add: environment_def)
  define tsm where "tsm = cfg_time_step_minutes (sim_config s2)"
  define tsh :: real where "tsh = of_int tsm / 60"
  define lv0 where "lv0 = \<lparr>daily_solar = 0, daily_load = 0, daily_grid_import = 0,
                     daily_grid_export = 0, daily_curtailed = 0, current_day = 0\<rparr>"
  have l1: "simulation_loop R tsh (24 * 60 div tsm)
              (cfg_duration_days (sim_config s2) * 24 * 60 div tsm) 0 s1 lv0 = Inr t1"
    using r1 unfolding run_def c tsm_def [symmetric]
    by (simp add: Let_def tsh_def lv0_def split: if_splits)
  have l2: "simulation_loop R tsh (24 * 60 div tsm)
              (cfg_duration_days (sim_config s2) * 24 * 60 div tsm) 0 s2 lv0 = Inr t2"
    using r2 unfolding run_def tsm_def [symmetric]
    by (simp add: Let_def tsh_def lv0_def split: if_splits)
  have "environment t1 = environment t2 \<and>
        map weather_columns (sim_hourly_data t1) = map weather_columns (sim_hourly_data t2)"
    using simulation_loop_same_environment [OF l1 l2 e(1)] e(2,3) by simp
  then show ?thesis by (simp add: environment_def)
qed

lemmas example_defs = example_config_def counting_random_def Battery_init_def
  CloudCoverage_init_def PROBABILITIES_def get_daily_coverage_def COVERAGE_RANGES_def
  Inverter_init_def Grid_init_def EnergyManagementSystem_init_def Let_def
  simulate_def Simulation_init_def run_def simulation_loop.simps simulation_step_def
  SolarPanel_generate_def is_operational_def apply_limit_def Load_generate_def py_int_def
  scheduled_events_def distribute_energy_def load_priority_def produce_priority_def
  charge_def discharge_def export_energy_def import_energy_def get_soc_def update_def
  log_daily_summary_def daily_self_sufficiency_def check_failure_def weather_columns_def

lemma example_run_load_priority:
  "\<exists>t. simulate counting_random 0 (example_config\<lparr>cfg_strategy := ''LOAD_PRIORITY''\<rparr>)
          = Inr t \<and>
        map weather_columns (sim_hourly_data t)
          = [(1 / 10, 0, 1 / 2), (1 / 10, 36 / 5, 7 / 4)] \<and>
        map rec_flows (sim_hourly_data t)
          = [make_flows 0 0 0 (1 / 2) 0 0, make_flows (7 / 4) (17 / 16) (35 / 16) 0 0 0]"
  by (simp add: example_defs)

lemma example_run_produce_priority:
  "\<exists>t. simulate counting_random 1 (example_config\<lparr>cfg_strategy := ''PRODUCE_PRIORITY''\<rparr>)
          = Inr t \<and>
        sim_rng t = 51"
  by (simp add: example_defs)

theorem draws_independent_of_strategy_witness:
  "\<exists>t1 t2.
     simulate counting_random 0 (example_config\<lparr>cfg_strategy := ''LOAD_PRIORITY''\<rparr>)
       = Inr t1 \<and>
     simulate counting_random 1 (example_config\<lparr>cfg_strategy := ''PRODUCE_PRIORITY''\<rparr>)
       = Inr t2 \<and>
     map weather_columns (sim_hourly_data t1) = [(1 / 10, 0, 1 / 2), (1 / 10, 36 / 5, 7 / 4)] \<and>
     map weather_columns (sim_hourly_data t2) = [(1 / 10, 0, 1 / 2), (1 / 10, 36 / 5, 7 / 4)] \<and>
     sim_rng t1 = 51 \<and> sim_rng t2 = 51"
proof -
  have seed: "cfg_random_seed example_config = Some 42"
    by (simp add: example_config_def)
  obtain t1 where t1:
    "simulate counting_random 0 (example_config\<lparr>cfg_strategy := ''LOAD_PRIORITY''\<rparr>)
       = Inr t1"
    "map weather_columns (sim_hourly_data t1) = [(1 / 10, 0, 1 / 2), (1 / 10, 36 / 5, 7 / 4)]"
    using example_run_load_priority by auto
  obtain t2 where t2:
    "simulate counting_random 1 (example_config\<lparr>cfg_strategy := ''PRODUCE_PRIORITY''\<rparr>)
       = Inr t2"
    "sim_rng t2 = 51"
    using example_run_produce_priority by auto
  from draws_independent_of_strategy [OF seed t1(1) t2(1)] t1 t2 show ?thesis
    by auto
qed

end
